theory Spec2Isabelle
  imports Main "HOL-Library.AList" "HOL-Library.Char_ord" "HOL-Library.List_Lexorder"
begin

section \<open>The remote parameter store and the random source\<close>

text \<open>
  The password manager of \<^verbatim>\<open>ssm_password_manager/password_manager.py\<close> keeps no
  data of its own: every operation is a call into the parameter store client
  (\<^verbatim>\<open>self.ssm\<close>) and, for generated passwords, into \<^verbatim>\<open>secrets.choice\<close>.
  Both are external to the repository, so they are modelled here as explicit state that
  every operation takes and returns.
\<close>

text \<open>
  Modelled from the spec: what a call of the store client can raise, the requests it
  can send, and a stored record. \<open>ClientError code text\<close> is botocore's
  \<^verbatim>\<open>ClientError\<close>: \<open>code\<close> is \<^verbatim>\<open>e.response['Error']['Code']\<close> and \<open>text\<close> is
  what \<^verbatim>\<open>str(e)\<close> yields. \<open>OtherException text\<close> is any exception that is not a
  \<^verbatim>\<open>ClientError\<close> (the manager's \<^verbatim>\<open>except ClientError\<close> clauses let it pass).
\<close>

datatype exn = ClientError string string | OtherException string

datatype api_call =
    PutParameter string bool
  | AddTagsToResource string
  | DeleteParameter string
  | GetParameter string
  | DescribeParameters

record parameter =
  Value :: string
  Type :: string
  Description :: string
  Tags :: "(string \<times> string) list"
  Version :: nat
  LastModifiedDate :: nat

text \<open>
  Modelled from the spec: the remote parameter service and the secure random source,
  neither of which is code of the repository.
  \<^item> \<open>parameters\<close>: the stored records, keyed by the full name \<open>{prefix}{login}\<close>, in the
    order the service enumerates them;
  \<^item> \<open>clock\<close>: the service's time, one tick per request;
  \<^item> \<open>pending\<close>: what the network and the service (its authorisation, its validation
    of the request) will do to the next requests, one entry per request (\<open>None\<close>: the request is served; \<open>Some e\<close>: it
    raises \<open>e\<close> and changes nothing); when the list is exhausted every request is served;
  \<^item> \<open>calls\<close>: the requests sent so far, oldest first;
  \<^item> \<open>page_size\<close>: how many records one page of a paginated listing holds;
  \<^item> \<open>entropy\<close>, \<open>drawn\<close>: the values the secure random source yields, and how many of
    them have been consumed.
\<close>

record world =
  parameters :: "(string \<times> parameter) list"
  clock :: nat
  pending :: "exn option list"
  calls :: "api_call list"
  page_size :: nat
  entropy :: "nat \<Rightarrow> nat"
  drawn :: nat

text \<open>
  Modelled from the spec: sending one request to the service. The request is recorded,
  time passes, and the next pending fault (if any) is consumed.
\<close>

definition request :: "api_call \<Rightarrow> world \<Rightarrow> exn option \<times> world" where
  "request c s =
     (case pending s of
        [] \<Rightarrow> (None, s\<lparr>clock := Suc (clock s), calls := calls s @ [c]\<rparr>)
      | f # fs \<Rightarrow> (f, s\<lparr>clock := Suc (clock s), pending := fs, calls := calls s @ [c]\<rparr>))"

text \<open>
  Modelled from the spec: the texts of the errors that the service itself raises.
\<close>

definition already_exists_text :: string where
  "already_exists_text =
     ''An error occurred (ParameterAlreadyExists) when calling the PutParameter operation''"

definition not_found_text :: string where
  "not_found_text = ''An error occurred (ParameterNotFound): parameter not found''"

definition invalid_resource_text :: string where
  "invalid_resource_text =
     ''An error occurred (InvalidResourceId) when calling the AddTagsToResource operation''"

text \<open>
  Modelled from the spec: \<^verbatim>\<open>put_parameter(Name, Value, Type, Overwrite, Description, Tags)\<close>.
  A new name is stored at version 1 with the tags given; an existing name is rejected
  unless \<open>Overwrite\<close>, in which case value, type and description are replaced, the
  version is incremented and the tags are kept.
\<close>

definition put_parameter ::
  "string \<Rightarrow> string \<Rightarrow> string \<Rightarrow> bool \<Rightarrow> string \<Rightarrow> (string \<times> string) list \<Rightarrow> world
     \<Rightarrow> (exn + unit) \<times> world" where
  "put_parameter name val typ overwrite descr tags s =
     (case request (PutParameter name overwrite) s of
        (Some e, s') \<Rightarrow> (Inl e, s')
      | (None, s') \<Rightarrow>
          (case map_of (parameters s') name of
             None \<Rightarrow>
               (Inr (), s'\<lparr>parameters := AList.update name
                    \<lparr>Value = val, Type = typ, Description = descr, Tags = tags,
                     Version = 1, LastModifiedDate = clock s'\<rparr> (parameters s')\<rparr>)
           | Some old \<Rightarrow>
               if overwrite
               then (Inr (), s'\<lparr>parameters := AList.update name
                      (old\<lparr>Value := val, Type := typ, Description := descr,
                           Version := Suc (Version old), LastModifiedDate := clock s'\<rparr>)
                      (parameters s')\<rparr>)
               else (Inl (ClientError ''ParameterAlreadyExists'' already_exists_text), s')))"

text \<open>
  Modelled from the spec: \<^verbatim>\<open>add_tags_to_resource\<close>. A tag replaces the tag of the
  same key, or is added; a name that the store does not hold is an error.
\<close>

definition add_tags_to_resource ::
  "string \<Rightarrow> (string \<times> string) list \<Rightarrow> world \<Rightarrow> (exn + unit) \<times> world" where
  "add_tags_to_resource name tags s =
     (case request (AddTagsToResource name) s of
        (Some e, s') \<Rightarrow> (Inl e, s')
      | (None, s') \<Rightarrow>
          (case map_of (parameters s') name of
             None \<Rightarrow> (Inl (ClientError ''InvalidResourceId'' invalid_resource_text), s')
           | Some old \<Rightarrow>
               (Inr (), s'\<lparr>parameters := AList.update name
                    (old\<lparr>Tags := fold (\<lambda>(k, v). AList.update k v) tags (Tags old)\<rparr>)
                    (parameters s')\<rparr>)))"

text \<open>
  Modelled from the spec: \<^verbatim>\<open>get_parameter(Name, WithDecryption=True)\<close> and
  \<^verbatim>\<open>delete_parameter(Name)\<close>. Both raise \<open>ParameterNotFound\<close> for a name that the
  store does not hold.
\<close>

definition get_parameter :: "string \<Rightarrow> world \<Rightarrow> (exn + parameter) \<times> world" where
  "get_parameter name s =
     (case request (GetParameter name) s of
        (Some e, s') \<Rightarrow> (Inl e, s')
      | (None, s') \<Rightarrow>
          (case map_of (parameters s') name of
             None \<Rightarrow> (Inl (ClientError ''ParameterNotFound'' not_found_text), s')
           | Some p \<Rightarrow> (Inr p, s')))"

definition delete_parameter :: "string \<Rightarrow> world \<Rightarrow> (exn + unit) \<times> world" where
  "delete_parameter name s =
     (case request (DeleteParameter name) s of
        (Some e, s') \<Rightarrow> (Inl e, s')
      | (None, s') \<Rightarrow>
          (case map_of (parameters s') name of
             None \<Rightarrow> (Inl (ClientError ''ParameterNotFound'' not_found_text), s')
           | Some p \<Rightarrow> (Inr (), s'\<lparr>parameters := AList.delete name (parameters s')\<rparr>)))"

text \<open>
  Modelled from the spec: the two name filters the manager uses, \<open>BeginsWith\<close> and
  the default, equality.
\<close>

datatype name_filter = BeginsWith string | Equals string

fun matches :: "name_filter \<Rightarrow> string \<Rightarrow> bool" where
  "matches (BeginsWith p) name = (take (length p) name = p)"
| "matches (Equals n) name = (name = n)"

text \<open>
  Modelled from the spec: \<^verbatim>\<open>describe_parameters(ParameterFilters=...)\<close>, a single
  request, answered with the records whose names pass the filter.
\<close>

definition describe_parameters ::
  "name_filter \<Rightarrow> world \<Rightarrow> (exn + (string \<times> parameter) list) \<times> world" where
  "describe_parameters flt s =
     (case request DescribeParameters s of
        (Some e, s') \<Rightarrow> (Inl e, s')
      | (None, s') \<Rightarrow> (Inr (filter (\<lambda>(name, p). matches flt name) (parameters s')), s'))"

text \<open>
  Modelled from the spec: the paginator over \<^verbatim>\<open>describe_parameters\<close>
  (\<^verbatim>\<open>get_paginator('describe_parameters').paginate(...)\<close>): one request per page, each page holding
  at most \<open>max 1 n\<close> of the remaining records, the last page being the first one that
  exhausts them (so a listing with no record still has one, empty, page).
\<close>

function fetch_pages ::
  "nat \<Rightarrow> (string \<times> parameter) list \<Rightarrow> world
     \<Rightarrow> (exn + (string \<times> parameter) list list) \<times> world" where
  "fetch_pages n rest s =
     (case request DescribeParameters s of
        (Some e, s') \<Rightarrow> (Inl e, s')
      | (None, s') \<Rightarrow>
          if length rest \<le> max 1 n then (Inr [rest], s')
          else (case fetch_pages n (drop (max 1 n) rest) s' of
                  (Inl e, s'') \<Rightarrow> (Inl e, s'')
                | (Inr pages, s'') \<Rightarrow> (Inr (take (max 1 n) rest # pages), s'')))"
  by pat_completeness auto
termination
  by (relation "measure (\<lambda>(n, rest, s). length rest)") auto

declare fetch_pages.simps [simp del]

definition paginate ::
  "name_filter \<Rightarrow> world \<Rightarrow> (exn + (string \<times> parameter) list list) \<times> world" where
  "paginate flt s =
     fetch_pages (page_size s) (filter (\<lambda>(name, p). matches flt name) (parameters s)) s"

text \<open>
  Modelled from the spec: \<^verbatim>\<open>secrets.choice(seq)\<close>, the element at a position below \<open>len(seq)\<close> taken from the
  secure source; one value of the source is consumed. The manager calls it on its
  alphabet only, which is not empty.
\<close>

definition choice :: "'a list \<Rightarrow> world \<Rightarrow> 'a \<times> world" where
  "choice seq s = (seq ! (entropy s (drawn s) mod length seq), s\<lparr>drawn := Suc (drawn s)\<rparr>)"

section \<open>The credential manager\<close>

text \<open>
  The exceptions of \<^verbatim>\<open>exceptions.py\<close>, each carrying its message. The first four are
  the subclasses of \<^verbatim>\<open>PasswordManagerError\<close>; \<open>Uncaught\<close> is an exception of the
  client that no \<^verbatim>\<open>except ClientError\<close> clause of the manager catches.
\<close>

datatype error =
    ValidationError string
  | LoginNotFoundError string
  | LoginAlreadyExistsError string
  | AWSError string
  | Uncaught string

fun message :: "error \<Rightarrow> string" where
  "message (ValidationError m) = m"
| "message (LoginNotFoundError m) = m"
| "message (LoginAlreadyExistsError m) = m"
| "message (AWSError m) = m"
| "message (Uncaught m) = m"

fun is_PasswordManagerError :: "error \<Rightarrow> bool" where
  "is_PasswordManagerError (Uncaught m) = False"
| "is_PasswordManagerError e = True"

definition quote :: "string \<Rightarrow> string" where
  "quote x = [CHR 0x27] @ x @ [CHR 0x27]"

definition ascii_letters :: string where
  "ascii_letters = ''abcdefghijklmnopqrstuvwxyzABCDEFGHIJKLMNOPQRSTUVWXYZ''"

definition digits :: string where
  "digits = ''0123456789''"

text \<open>The generator expression of \<^verbatim>\<open>_generate_password\<close>: one \<open>choice\<close> per element of \<open>range(length)\<close>.\<close>

fun choices :: "nat \<Rightarrow> string \<Rightarrow> world \<Rightarrow> string \<times> world" where
  "choices 0 alphabet s = ([], s)"
| "choices (Suc n) alphabet s =
     (case choice alphabet s of
        (c, s') \<Rightarrow> (case choices n alphabet s' of (cs, s'') \<Rightarrow> (c # cs, s'')))"

text \<open>The local \<^verbatim>\<open>alphabet\<close> of \<^verbatim>\<open>_generate_password\<close>.\<close>

definition alphabet :: string where
  "alphabet = ascii_letters @ digits @ ''!@#$%^&*''"

text \<open>\<^verbatim>\<open>_generate_password(self, length=16)\<close>; \<open>None\<close> is the omitted argument.\<close>

definition generate_password :: "int option \<Rightarrow> world \<Rightarrow> string \<times> world" where
  "generate_password length_arg s =
     (let length0 = (case length_arg of None \<Rightarrow> 16 | Some l \<Rightarrow> l);
          length1 = (if length0 < 8 then 8 else length0)
      in choices (nat length1) alphabet s)"

text \<open>The inner and the outer loop of \<^verbatim>\<open>list_logins\<close>, with \<open>logins\<close> as accumulator.\<close>

fun page_loop :: "string \<Rightarrow> (string \<times> parameter) list \<Rightarrow> string list \<Rightarrow> string list" where
  "page_loop prefix [] logins = logins"
| "page_loop prefix (param # params) logins =
     page_loop prefix params (logins @ [drop (length prefix) (fst param)])"

fun pages_loop :: "string \<Rightarrow> (string \<times> parameter) list list \<Rightarrow> string list \<Rightarrow> string list" where
  "pages_loop prefix [] logins = logins"
| "pages_loop prefix (page # pages) logins = pages_loop prefix pages (page_loop prefix page logins)"

definition list_logins :: "string \<Rightarrow> world \<Rightarrow> (error + string list) \<times> world" where
  "list_logins prefix s =
     (case paginate (BeginsWith prefix) s of
        (Inr pages, s') \<Rightarrow> (Inr (sort (pages_loop prefix pages [])), s')
      | (Inl e, s') \<Rightarrow>
          (case e of
             ClientError code text \<Rightarrow> (Inl (AWSError (''Failed to list logins: '' @ text)), s')
           | OtherException text \<Rightarrow> (Inl (Uncaught text), s')))"

definition create_login :: "string \<Rightarrow> string \<Rightarrow> string option \<Rightarrow> world \<Rightarrow> (error + string) \<times> world" where
  "create_login prefix login password s =
     (if login = [] then (Inl (ValidationError ''Login cannot be empty''), s)
      else
        (case (case password of None \<Rightarrow> generate_password None s | Some p \<Rightarrow> (p, s)) of
           (password', s1) \<Rightarrow>
             (case put_parameter (prefix @ login) password' ''SecureString'' False
                     (''Password for login: '' @ login)
                     [(''Type'', ''Password''), (''Login'', login)] s1 of
                (Inr u, s2) \<Rightarrow> (Inr password', s2)
              | (Inl e, s2) \<Rightarrow>
                  (case e of
                     ClientError code text \<Rightarrow>
                       if code = ''ParameterAlreadyExists''
                       then (Inl (LoginAlreadyExistsError
                              (''Login '' @ quote login
                                 @ '' already exists. Use update to modify existing login.'')), s2)
                       else (Inl (AWSError (''Failed to create login: '' @ text)), s2)
                   | OtherException text \<Rightarrow> (Inl (Uncaught text), s2)))))"

definition update_login :: "string \<Rightarrow> string \<Rightarrow> string \<Rightarrow> world \<Rightarrow> (error + unit) \<times> world" where
  "update_login prefix login password s =
     (if login = [] then (Inl (ValidationError ''Login cannot be empty''), s)
      else if password = [] then (Inl (ValidationError ''Password cannot be empty''), s)
      else
        (case (case put_parameter (prefix @ login) password ''SecureString'' True
                      (''Password for login: '' @ login) [] s of
                 (Inl e, s1) \<Rightarrow> (Inl e, s1)
               | (Inr u, s1) \<Rightarrow>
                   add_tags_to_resource (prefix @ login)
                     [(''Type'', ''Password''), (''Login'', login)] s1) of
           (Inr u, s2) \<Rightarrow> (Inr (), s2)
         | (Inl e, s2) \<Rightarrow>
             (case e of
                ClientError code text \<Rightarrow> (Inl (AWSError (''Failed to update login: '' @ text)), s2)
              | OtherException text \<Rightarrow> (Inl (Uncaught text), s2))))"

definition delete_login :: "string \<Rightarrow> string \<Rightarrow> world \<Rightarrow> (error + unit) \<times> world" where
  "delete_login prefix login s =
     (if login = [] then (Inl (ValidationError ''Login cannot be empty''), s)
      else
        (case delete_parameter (prefix @ login) s of
           (Inr u, s1) \<Rightarrow> (Inr (), s1)
         | (Inl e, s1) \<Rightarrow>
             (case e of
                ClientError code text \<Rightarrow>
                  if code = ''ParameterNotFound''
                  then (Inl (LoginNotFoundError (''Login '' @ quote login @ '' not found'')), s1)
                  else (Inl (AWSError (''Failed to delete login: '' @ text)), s1)
              | OtherException text \<Rightarrow> (Inl (Uncaught text), s1))))"

definition get_password :: "string \<Rightarrow> string \<Rightarrow> world \<Rightarrow> (error + string) \<times> world" where
  "get_password prefix login s =
     (if login = [] then (Inl (ValidationError ''Login cannot be empty''), s)
      else
        (case get_parameter (prefix @ login) s of
           (Inr response, s1) \<Rightarrow> (Inr (Value response), s1)
         | (Inl e, s1) \<Rightarrow>
             (case e of
                ClientError code text \<Rightarrow>
                  if code = ''ParameterNotFound''
                  then (Inl (LoginNotFoundError (''Login '' @ quote login @ '' not found'')), s1)
                  else (Inl (AWSError (''Failed to get password: '' @ text)), s1)
              | OtherException text \<Rightarrow> (Inl (Uncaught text), s1))))"

text \<open>\<^verbatim>\<open>rotate_password(self, login, length=16)\<close>; \<open>None\<close> is the omitted length.\<close>

definition rotate_password :: "string \<Rightarrow> string \<Rightarrow> int option \<Rightarrow> world \<Rightarrow> (error + string) \<times> world" where
  "rotate_password prefix login length_arg s =
     (if login = [] then (Inl (ValidationError ''Login cannot be empty''), s)
      else
        (case get_password prefix login s of
           (Inl e, s1) \<Rightarrow> (Inl e, s1)
         | (Inr old, s1) \<Rightarrow>
             (case generate_password (Some (case length_arg of None \<Rightarrow> 16 | Some l \<Rightarrow> l)) s1 of
                (new_password, s2) \<Rightarrow>
                  (case update_login prefix login new_password s2 of
                     (Inl e, s3) \<Rightarrow> (Inl e, s3)
                   | (Inr u, s3) \<Rightarrow> (Inr new_password, s3)))))"

definition login_exists :: "string \<Rightarrow> string \<Rightarrow> world \<Rightarrow> (error + bool) \<times> world" where
  "login_exists prefix login s =
     (if login = [] then (Inl (ValidationError ''Login cannot be empty''), s)
      else
        (case get_password prefix login s of
           (Inr v, s1) \<Rightarrow> (Inr True, s1)
         | (Inl e, s1) \<Rightarrow>
             (case e of
                LoginNotFoundError m \<Rightarrow> (Inr False, s1)
              | _ \<Rightarrow> (Inl e, s1))))"

record login_info =
  info_name :: string
  info_description :: string
  info_type :: string
  info_last_modified :: nat
  info_version :: nat

definition get_login_info :: "string \<Rightarrow> string \<Rightarrow> world \<Rightarrow> (error + login_info) \<times> world" where
  "get_login_info prefix login s =
     (if login = [] then (Inl (ValidationError ''Login cannot be empty''), s)
      else
        (case describe_parameters (Equals (prefix @ login)) s of
           (Inr response, s1) \<Rightarrow>
             (case response of
                [] \<Rightarrow> (Inl (LoginNotFoundError (''Login '' @ quote login @ '' not found'')), s1)
              | param # others \<Rightarrow>
                  (Inr \<lparr>info_name = fst param,
                        info_description = Description (snd param),
                        info_type = Type (snd param),
                        info_last_modified = LastModifiedDate (snd param),
                        info_version = Version (snd param)\<rparr>, s1))
         | (Inl e, s1) \<Rightarrow>
             (case e of
                ClientError code text \<Rightarrow> (Inl (AWSError (''Failed to get login info: '' @ text)), s1)
              | OtherException text \<Rightarrow> (Inl (Uncaught text), s1))))"

section \<open>The web login handler\<close>

text \<open>
  The \<^verbatim>\<open>login\<close> view of \<^verbatim>\<open>app.py\<close>. What the view leaves behind is the session
  (with the messages flashed into it) and the server log; templates and the rate limiter
  are library calls and are not modelled.
\<close>

datatype http_method = GET | POST

datatype response = RenderLogin | RedirectIndex

datatype level = INFO | WARNING | ERROR

record web =
  session_logged_in :: "bool option"
  session_username :: "string option"
  flashes :: "(string \<times> string) list"
  log :: "(level \<times> string) list"

definition flash :: "string \<Rightarrow> string \<Rightarrow> web \<Rightarrow> web" where
  "flash msg category w = w\<lparr>flashes := flashes w @ [(msg, category)]\<rparr>"

definition logger :: "level \<Rightarrow> string \<Rightarrow> web \<Rightarrow> web" where
  "logger lvl msg w = w\<lparr>log := log w @ [(lvl, msg)]\<rparr>"

text \<open>
  \<^verbatim>\<open>str.isspace\<close> on one character, and \<^verbatim>\<open>str.strip()\<close>: leading and
  trailing whitespace is removed. A character of the model is a code point below 256;
  the whitespace among these code points is the tab, line feed, vertical tab, form feed
  and carriage return (9 to 13), the four separators 28 to 31, the space (32), the next
  line control U+0085 (133) and the no-break space U+00A0 (160).
\<close>

definition isspace :: "char \<Rightarrow> bool" where
  "isspace c = (of_char c \<in> {9, 10, 11, 12, 13, 28, 29, 30, 31, 32, 133, 160 :: nat})"

definition strip :: "string \<Rightarrow> string" where
  "strip x = rev (dropWhile isspace (rev (dropWhile isspace x)))"

text \<open>\<^verbatim>\<open>str(n)\<close> for a length.\<close>

function str_nat :: "nat \<Rightarrow> string" where
  "str_nat n =
     (if n < 10 then [char_of (48 + n)]
      else str_nat (n div 10) @ [char_of (48 + n mod 10)])"
  by pat_completeness auto
termination
  by (relation "measure (\<lambda>n. n)") auto

declare str_nat.simps [simp del]

text \<open>The two \<^verbatim>\<open>except\<close> clauses of the view, in their order.\<close>

definition handle_exception :: "string \<Rightarrow> error \<Rightarrow> web \<Rightarrow> web" where
  "handle_exception username e w =
     (if is_PasswordManagerError e
      then flash (''Authentication error: '' @ message e) ''error''
             (logger ERROR (''PasswordManagerError during login for '' @ quote username
                              @ '': '' @ message e) w)
      else flash ''System error occurred. Please try again.'' ''error''
             (logger ERROR (''Unexpected error during login for '' @ quote username
                              @ '': '' @ message e) w))"

text \<open>
  \<open>login method form_username form_password pm w s\<close>: the form fields are what
  \<^verbatim>\<open>request.form.get(..., '')\<close> yields, \<open>pm\<close> is the prefix of the global manager
  (\<open>None\<close> when its initialisation failed).
\<close>

definition login ::
  "http_method \<Rightarrow> string \<Rightarrow> string \<Rightarrow> string option \<Rightarrow> web \<Rightarrow> world \<Rightarrow> response \<times> web \<times> world" where
  "login method form_username form_password pm w s =
     (if method = POST then
        (let username = strip form_username;
             password = strip form_password;
             w1 = logger INFO (''Login attempt for username: '' @ quote username) w
         in case pm of
              None \<Rightarrow>
                (RenderLogin,
                 flash ''System error: Password manager not available'' ''error''
                   (logger ERROR ''PasswordManager not initialized'' w1), s)
            | Some prefix \<Rightarrow>
                if username = [] \<or> password = [] then
                  (RenderLogin,
                   flash ''Please enter both username and password'' ''error''
                     (logger WARNING (''Empty credentials provided - username: '' @ quote username
                        @ '', password: '' @ (if password \<noteq> [] then ''***'' else ''empty'')) w1), s)
                else
                  (let w2 = logger INFO (''Checking if login exists: '' @ quote username) w1
                   in case login_exists prefix username s of
                        (Inl e, s1) \<Rightarrow> (RenderLogin, handle_exception username e w2, s1)
                      | (Inr exists, s1) \<Rightarrow>
                          (let w3 = logger INFO (''Login exists result for '' @ quote username
                                      @ '': '' @ (if exists then ''True'' else ''False'')) w2
                           in if exists then
                                (let w4 = logger INFO
                                            (''Attempting to get password for '' @ quote username) w3
                                 in case get_password prefix username s1 of
                                      (Inl e, s2) \<Rightarrow> (RenderLogin, handle_exception username e w4, s2)
                                    | (Inr stored_password, s2) \<Rightarrow>
                                        (let w5 = logger INFO (''Retrieved password for ''
                                                    @ quote username @ '' (length: ''
                                                    @ str_nat (length stored_password) @ '')'') w4
                                         in if password = stored_password then
                                              (RedirectIndex,
                                               flash (''Welcome, '' @ username @ ''!'') ''success''
                                                 ((logger INFO (''Successful login for ''
                                                     @ quote username) w5)
                                                   \<lparr>session_logged_in := Some True,
                                                    session_username := Some username\<rparr>), s2)
                                            else
                                              (RenderLogin,
                                               flash ''Invalid username or password'' ''error''
                                                 (logger WARNING (''Password mismatch for ''
                                                    @ quote username @ '' - provided: ''
                                                    @ str_nat (length password) @ '' chars, stored: ''
                                                    @ str_nat (length stored_password) @ '' chars'') w5),
                                               s2)))
                              else
                                (RenderLogin,
                                 flash ''Invalid username or password'' ''error''
                                   (logger WARNING (''Login does not exist: '' @ quote username) w3),
                                 s1))))
      else (RenderLogin, w, s))"

section \<open>Sequences of operations\<close>

text \<open>
  The operations a frontend can ask of one manager, and the effect of a sequence of
  them on the world (each result is dropped: the next operation sees only the world).
\<close>

datatype op =
    List
  | Create string "string option"
  | Update string string
  | Delete string
  | Get string
  | Rotate string "int option"
  | Exists string
  | Info string

fun run :: "string \<Rightarrow> op \<Rightarrow> world \<Rightarrow> world" where
  "run prefix List s = snd (list_logins prefix s)"
| "run prefix (Create lg password) s = snd (create_login prefix lg password s)"
| "run prefix (Update lg password) s = snd (update_login prefix lg password s)"
| "run prefix (Delete lg) s = snd (delete_login prefix lg s)"
| "run prefix (Get lg) s = snd (get_password prefix lg s)"
| "run prefix (Rotate lg len) s = snd (rotate_password prefix lg len s)"
| "run prefix (Exists lg) s = snd (login_exists prefix lg s)"
| "run prefix (Info lg) s = snd (get_login_info prefix lg s)"

fun run_all :: "string \<Rightarrow> op list \<Rightarrow> world \<Rightarrow> world" where
  "run_all prefix [] s = s"
| "run_all prefix (x # xs) s = run_all prefix xs (run prefix x s)"

section \<open>Worlds used in the examples\<close>

text \<open>An empty store behind a healthy network, listing two records per page.\<close>

definition world0 :: world where
  "world0 = \<lparr>parameters = [], clock = 0, pending = [], calls = [], page_size = 2,
             entropy = (\<lambda>i. 7 * i + 3), drawn = 0\<rparr>"

text \<open>The same network with its next request refused by the service's authorisation.\<close>

definition denied :: exn where
  "denied = ClientError ''AccessDeniedException''
     ''An error occurred (AccessDeniedException) when calling the GetParameter operation: not authorized''"

definition world_denied :: world where
  "world_denied = world0\<lparr>pending := [Some denied]\<rparr>"

text \<open>A store that holds the login \<open>alice\<close> under the default prefix.\<close>

definition alice_record :: parameter where
  "alice_record = \<lparr>Value = ''secret'', Type = ''SecureString'',
     Description = ''Password for login: alice'',
     Tags = [(''Type'', ''Password''), (''Login'', ''alice'')],
     Version = 1, LastModifiedDate = 1\<rparr>"

definition world_alice :: world where
  "world_alice = world0\<lparr>parameters := [(''/passwords/alice'', alice_record)], clock := 1,
                         calls := [PutParameter ''/passwords/alice'' False]\<rparr>"

text \<open>A fresh, anonymous session and an empty server log.\<close>

definition web0 :: web where
  "web0 = \<lparr>session_logged_in = None, session_username = None, flashes = [], log = []\<rparr>"

text \<open>The same network with its next request failing before it reaches the service.\<close>

definition world_offline :: world where
  "world_offline = world0\<lparr>pending := [Some (OtherException ''Could not connect to the endpoint URL'')]\<rparr>"

text \<open>
  A store in which \<open>alice\<close> holds a password of 24 characters \<open>d\<close>, with a random source
  whose every value is 3 (the position of \<open>d\<close> in the alphabet).
\<close>

definition world_stale :: world where
  "world_stale = world_alice\<lparr>
     parameters := [(''/passwords/alice'', alice_record\<lparr>Value := replicate 24 CHR ''d''\<rparr>)],
     entropy := (\<lambda>i. 3)\<rparr>"

text \<open>
  A healthy network in front of a service that refuses the next request as invalid, the
  way the parameter service answers a put whose value is empty.
\<close>

definition world_refusing :: world where
  "world_refusing = world0\<lparr>pending := [Some (ClientError ''ValidationException''
     ''An error occurred (ValidationException) when calling the PutParameter operation: Member must have length greater than or equal to 1'')]\<rparr>"

section \<open>The names created and not deleted\<close>

text \<open>
  The spec's account of what a listing reflects, in the spec's words: the set of names
  created and not deleted. A name comes into being by a create, or by an update (which
  the spec describes as creating the record when it is absent); it goes by a delete; an
  operation whose argument is rejected as empty changes nothing.
\<close>

fun names_after :: "op \<Rightarrow> string set \<Rightarrow> string set" where
  "names_after (Create lg password) N = (if lg = [] then N else insert lg N)"
| "names_after (Update lg password) N = (if lg = [] \<or> password = [] then N else insert lg N)"
| "names_after (Delete lg) N = (if lg = [] then N else N - {lg})"
| "names_after x N = N"

fun created_not_deleted :: "op list \<Rightarrow> string set \<Rightarrow> string set" where
  "created_not_deleted [] N = N"
| "created_not_deleted (x # xs) N = created_not_deleted xs (names_after x N)"

section \<open>Auxiliary notions\<close>

text \<open>The world after a request that the service has served without touching a record.\<close>

definition sent :: "api_call \<Rightarrow> world \<Rightarrow> world" where
  "sent c s = s\<lparr>clock := Suc (clock s), calls := calls s @ [c]\<rparr>"

text \<open>The login names that a store holds under a prefix.\<close>

definition held_names :: "string \<Rightarrow> world \<Rightarrow> string set" where
  "held_names p s =
     set (map (drop (length p)) (filter (\<lambda>k. take (length p) k = p) (map fst (parameters s))))"

section \<open>Password generation\<close>

lemma choices_fst:
  "fst (choices n a s) = map (\<lambda>i. a ! (entropy s i mod length a)) [drawn s ..< drawn s + n]"
proof (induction n arbitrary: s)
  case 0
  then show ?case by simp
next
  case (Suc n)
  have "fst (choices (Suc n) a s) =
          a ! (entropy s (drawn s) mod length a) # fst (choices n a (s\<lparr>drawn := Suc (drawn s)\<rparr>))"
    by (simp add: choice_def split: prod.splits)
  also have "\<dots> = a ! (entropy s (drawn s) mod length a)
                 # map (\<lambda>i. a ! (entropy s i mod length a)) [Suc (drawn s) ..< Suc (drawn s) + n]"
    by (simp add: Suc.IH)
  also have "\<dots> = map (\<lambda>i. a ! (entropy s i mod length a)) [drawn s ..< drawn s + Suc n]"
    by (simp add: upt_rec [of "drawn s"])
  finally show ?case .
qed

lemma choices_snd: "snd (choices n a s) = s\<lparr>drawn := drawn s + n\<rparr>"
proof (induction n arbitrary: s)
  case 0
  then show ?case by simp
next
  case (Suc n)
  have "snd (choices (Suc n) a s) = snd (choices n a (s\<lparr>drawn := Suc (drawn s)\<rparr>))"
    by (simp add: choice_def split: prod.splits)
  then show ?case by (simp add: Suc.IH)
qed

lemma alphabet_length: "length alphabet = 70"
  by (simp add: alphabet_def ascii_letters_def digits_def)

lemma alphabet_distinct: "distinct alphabet"
  by (simp add: alphabet_def ascii_letters_def digits_def)

lemma alphabet_set:
  "set alphabet = set (''ABCDEFGHIJKLMNOPQRSTUVWXYZ'' @ ''abcdefghijklmnopqrstuvwxyz''
                        @ ''0123456789'' @ ''!@#$%^&*'')"
  by (auto simp add: alphabet_def ascii_letters_def digits_def)

lemma alphabet_bij: "bij_betw (\<lambda>d. alphabet ! d) {..<70} (set alphabet)"
  using alphabet_distinct alphabet_length by (metis bij_betw_nth)

lemma generate_password_choices:
  "generate_password len s =
     choices (nat (max (case len of None \<Rightarrow> 16 | Some l \<Rightarrow> l) 8)) alphabet s"
  by (simp add: generate_password_def Let_def max_def)

lemma generate_password_length:
  "length (fst (generate_password len s)) = nat (max (case len of None \<Rightarrow> 16 | Some l \<Rightarrow> l) 8)"
  by (simp add: generate_password_choices choices_fst)

lemma generate_password_world:
  "snd (generate_password len s)
     = s\<lparr>drawn := drawn s + nat (max (case len of None \<Rightarrow> 16 | Some l \<Rightarrow> l) 8)\<rparr>"
  by (simp add: generate_password_choices choices_snd)

lemma generate_password_chars: "set (fst (generate_password len s)) \<subseteq> set alphabet"
  by (auto simp add: generate_password_choices choices_fst alphabet_length)

text \<open>
  C1, as stated, calls the alphabet a 72-character one. The alphabet the code draws from
  is the listed one (upper and lower case letters, digits and the eight punctuation
  marks), and that has 70 characters.
\<close>

theorem generate_password_alphabet_counterexample:
  "length alphabet \<noteq> 72 \<and> card (set alphabet) \<noteq> 72"
  using alphabet_length distinct_card [OF alphabet_distinct] by simp

text \<open>
  C1, amended: for every requested length \<open>L\<close> the generated password has exactly
  \<open>max L 8\<close> characters, and 16 when no length is requested; its characters are, in
  order, the values the secure source yields next, one value per character, each
  indexing the alphabet independently of the others (so a character may repeat); the
  alphabet is A-Z, a-z, 0-9 and \<^verbatim>\<open>!@#$%^&*\<close>, 70 distinct characters, so that indices
  below 70 and characters correspond one to one and a uniform source gives a uniform
  character; nothing but the count of consumed values changes in the world.
\<close>

theorem generate_password_policy:
  "length (fst (generate_password (Some L) s)) = nat (max L 8)
   \<and> length (fst (generate_password None s)) = 16
   \<and> fst (generate_password (Some L) s)
       = map (\<lambda>i. alphabet ! (entropy s i mod 70)) [drawn s ..< drawn s + nat (max L 8)]
   \<and> fst (generate_password None s)
       = map (\<lambda>i. alphabet ! (entropy s i mod 70)) [drawn s ..< drawn s + 16]
   \<and> set (fst (generate_password (Some L) s)) \<subseteq> set alphabet
   \<and> set (fst (generate_password None s)) \<subseteq> set alphabet
   \<and> set alphabet = set (''ABCDEFGHIJKLMNOPQRSTUVWXYZ'' @ ''abcdefghijklmnopqrstuvwxyz''
                          @ ''0123456789'' @ ''!@#$%^&*'')
   \<and> distinct alphabet \<and> length alphabet = 70
   \<and> bij_betw (\<lambda>d. alphabet ! d) {..<70} (set alphabet)
   \<and> snd (generate_password (Some L) s) = s\<lparr>drawn := drawn s + nat (max L 8)\<rparr>
   \<and> snd (generate_password None s) = s\<lparr>drawn := drawn s + 16\<rparr>"
proof -
  have "fst (generate_password (Some L) s)
          = map (\<lambda>i. alphabet ! (entropy s i mod 70)) [drawn s ..< drawn s + nat (max L 8)]"
    by (simp add: generate_password_choices choices_fst alphabet_length)
  moreover have "fst (generate_password None s)
          = map (\<lambda>i. alphabet ! (entropy s i mod 70)) [drawn s ..< drawn s + 16]"
    by (simp add: generate_password_choices choices_fst alphabet_length)
  moreover have "length (fst (generate_password (Some L) s)) = nat (max L 8)"
    by (simp add: generate_password_length)
  moreover have "length (fst (generate_password None s)) = 16"
    by (simp add: generate_password_length)
  moreover have "snd (generate_password (Some L) s) = s\<lparr>drawn := drawn s + nat (max L 8)\<rparr>"
    by (simp add: generate_password_world)
  moreover have "snd (generate_password None s) = s\<lparr>drawn := drawn s + 16\<rparr>"
    by (simp add: generate_password_world)
  ultimately show ?thesis
    using generate_password_chars alphabet_set alphabet_distinct alphabet_length alphabet_bij
    by blast
qed

theorem generate_password_policy_witness:
  "fst (generate_password (Some 4) world0) = ''dkryFMT0''
   \<and> length (fst (generate_password (Some 4) world0)) = 8
   \<and> drawn (snd (generate_password (Some 4) world0)) = 8"
  using generate_password_policy [of 4 world0]
  by (simp add: world0_def alphabet_def ascii_letters_def digits_def upt_rec [of _ "numeral _"])

section \<open>Requests and reads\<close>

lemma sent_simps [simp]:
  "parameters (sent c s) = parameters s" "pending (sent c s) = pending s"
  "calls (sent c s) = calls s @ [c]" "entropy (sent c s) = entropy s"
  "drawn (sent c s) = drawn s" "page_size (sent c s) = page_size s"
  "clock (sent c s) = Suc (clock s)"
  by (simp_all add: sent_def)

lemma request_healthy: "pending s = [] \<Longrightarrow> request c s = (None, sent c s)"
  by (simp add: request_def sent_def)

lemma request_parameters [simp]: "parameters (snd (request c s)) = parameters s"
  by (simp add: request_def split: list.splits)

lemma request_faulty:
  "pending s = f # fs \<Longrightarrow> request c s = (f, (sent c s)\<lparr>pending := fs\<rparr>)"
  by (simp add: request_def sent_def)

lemma get_parameter_healthy:
  "pending s = [] \<Longrightarrow> get_parameter k s =
     (case map_of (parameters s) k of
        None \<Rightarrow> Inl (ClientError ''ParameterNotFound'' not_found_text)
      | Some r \<Rightarrow> Inr r, sent (GetParameter k) s)"
  by (simp add: get_parameter_def request_healthy split: option.splits)

lemma get_password_healthy:
  "lg \<noteq> [] \<Longrightarrow> pending s = [] \<Longrightarrow> get_password p lg s =
     (case map_of (parameters s) (p @ lg) of
        None \<Rightarrow> Inl (LoginNotFoundError (''Login '' @ quote lg @ '' not found''))
      | Some r \<Rightarrow> Inr (Value r), sent (GetParameter (p @ lg)) s)"
  by (simp add: get_password_def get_parameter_healthy split: option.splits)

lemma get_password_not_validation:
  "lg \<noteq> [] \<Longrightarrow> fst (get_password p lg s) \<noteq> Inl (ValidationError m)"
  by (simp add: get_password_def split: prod.splits sum.splits exn.splits)

lemma get_password_parameters [simp]:
  "parameters (snd (get_password p lg s)) = parameters s"
  by (auto simp add: get_password_def get_parameter_def request_def
      split: prod.splits sum.splits exn.splits list.splits option.splits)

lemma login_exists_via_get:
  "lg \<noteq> [] \<Longrightarrow> login_exists p lg s =
     (case get_password p lg s of
        (Inr v, s1) \<Rightarrow> (Inr True, s1)
      | (Inl (LoginNotFoundError m), s1) \<Rightarrow> (Inr False, s1)
      | (Inl e, s1) \<Rightarrow> (Inl e, s1))"
  by (simp add: login_exists_def split: prod.splits sum.splits error.splits)

lemma login_exists_healthy:
  "lg \<noteq> [] \<Longrightarrow> pending s = [] \<Longrightarrow>
     login_exists p lg s = (Inr (map_of (parameters s) (p @ lg) \<noteq> None), sent (GetParameter (p @ lg)) s)"
  by (simp add: login_exists_def get_password_healthy split: option.splits)

lemma login_exists_validation_iff:
  "(\<exists>m. fst (login_exists p lg s) = Inl (ValidationError m)) \<longleftrightarrow> lg = []"
proof
  assume "\<exists>m. fst (login_exists p lg s) = Inl (ValidationError m)"
  then obtain m where m: "fst (login_exists p lg s) = Inl (ValidationError m)" ..
  show "lg = []"
  proof (rule ccontr)
    assume ne: "lg \<noteq> []"
    from m ne get_password_not_validation [OF ne, of p s] show False
      by (auto simp add: login_exists_def split: prod.splits sum.splits error.splits)
  qed
next
  assume "lg = []"
  then show "\<exists>m. fst (login_exists p lg s) = Inl (ValidationError m)"
    by (simp add: login_exists_def)
qed

section \<open>Existence check\<close>

text \<open>
  C2, as stated, says that \<open>exists\<close> never raises for a non-empty name. When the
  service refuses the request, the internal \<open>get\<close> raises \<open>AWSError\<close>, and
  \<^verbatim>\<open>login_exists\<close>, which catches \<^verbatim>\<open>LoginNotFoundError\<close> only, lets it through.
\<close>

theorem login_exists_raises_counterexample:
  "fst (login_exists ''/passwords/'' ''alice'' world_denied)
     = Inl (AWSError ''Failed to get password: An error occurred (AccessDeniedException) when calling the GetParameter operation: not authorized'')"
  by (simp add: login_exists_def get_password_def get_parameter_def request_def
      world_denied_def world0_def denied_def)

lemma login_exists_errors:
  "fst (login_exists p lg s) = Inl e \<Longrightarrow> lg \<noteq> [] \<Longrightarrow>
     (\<exists>t. e = AWSError t \<or> e = Uncaught t) \<and> fst (get_password p lg s) = Inl e"
  by (auto simp add: login_exists_def get_password_def
      split: prod.splits sum.splits error.splits exn.splits if_splits)

text \<open>
  C2, amended: \<open>exists\<close> raises \<open>Validation\<close> exactly when the name is empty (and
  then leaves the world untouched); for a non-empty name it returns true when the
  internal \<open>get\<close> returns a value, false when it raises \<open>NotFound\<close>, and
  propagates any other error of \<open>get\<close> unchanged, which is then an \<open>AWSError\<close> or an
  exception of the client that is not a \<open>ClientError\<close>; when the service serves the
  request, the answer is whether the store holds the name.
\<close>

theorem login_exists_contract:
  "((\<exists>m. fst (login_exists p lg s) = Inl (ValidationError m)) \<longleftrightarrow> lg = [])
   \<and> (lg = [] \<longrightarrow> snd (login_exists p lg s) = s)
   \<and> (lg \<noteq> [] \<longrightarrow> login_exists p lg s =
        (case get_password p lg s of
           (Inr v, s1) \<Rightarrow> (Inr True, s1)
         | (Inl (LoginNotFoundError m), s1) \<Rightarrow> (Inr False, s1)
         | (Inl e, s1) \<Rightarrow> (Inl e, s1)))
   \<and> (lg \<noteq> [] \<and> pending s = [] \<longrightarrow>
        fst (login_exists p lg s) = Inr (map_of (parameters s) (p @ lg) \<noteq> None))
   \<and> (\<forall>e. lg \<noteq> [] \<and> fst (login_exists p lg s) = Inl e \<longrightarrow>
        (\<exists>t. e = AWSError t \<or> e = Uncaught t) \<and> fst (get_password p lg s) = Inl e)"
proof -
  have "lg = [] \<longrightarrow> snd (login_exists p lg s) = s"
    by (simp add: login_exists_def)
  moreover have "lg \<noteq> [] \<and> pending s = [] \<longrightarrow>
        fst (login_exists p lg s) = Inr (map_of (parameters s) (p @ lg) \<noteq> None)"
    by (simp add: login_exists_healthy)
  ultimately show ?thesis
    using login_exists_validation_iff [of p lg s] login_exists_via_get [of lg p s]
      login_exists_errors [of p lg s]
    by blast
qed

theorem login_exists_contract_witness:
  "fst (login_exists ''/passwords/'' ''alice'' world_alice) = Inr True
   \<and> fst (login_exists ''/passwords/'' ''bob'' world_alice) = Inr False"
  using login_exists_contract [of "''/passwords/''" "''alice''" world_alice]
    login_exists_contract [of "''/passwords/''" "''bob''" world_alice]
  by (simp add: login_exists_def get_password_def get_parameter_def request_def
      world_alice_def world0_def)

section \<open>Errors on the login page\<close>

lemma handle_exception_flashes:
  "flashes (handle_exception u e w) = flashes w @
     [(if is_PasswordManagerError e then ''Authentication error: '' @ message e
       else ''System error occurred. Please try again.'', ''error'')]"
  by (simp add: handle_exception_def flash_def logger_def)

lemma handle_exception_log:
  "log (handle_exception u e w) = log w @
     [(ERROR, (if is_PasswordManagerError e then ''PasswordManagerError during login for ''
               else ''Unexpected error during login for '') @ quote u @ '': '' @ message e)]"
  by (simp add: handle_exception_def flash_def logger_def)

lemma handle_exception_session:
  "session_logged_in (handle_exception u e w) = session_logged_in w"
  "session_username (handle_exception u e w) = session_username w"
  by (simp_all add: handle_exception_def flash_def logger_def)

lemma logger_fields:
  "flashes (logger l m w) = flashes w" "session_logged_in (logger l m w) = session_logged_in w"
  "session_username (logger l m w) = session_username w" "log (logger l m w) = log w @ [(l, m)]"
  by (simp_all add: logger_def)

lemma login_raises:
  assumes u: "strip fu \<noteq> []" and pw: "strip fp \<noteq> []"
    and raised: "fst (login_exists prefix (strip fu) s) = Inl e
       \<or> (fst (login_exists prefix (strip fu) s) = Inr True
          \<and> fst (get_password prefix (strip fu) (snd (login_exists prefix (strip fu) s))) = Inl e)"
  shows "\<exists>w' s'. login POST fu fp (Some prefix) w s = (RenderLogin, handle_exception (strip fu) e w', s')
     \<and> flashes w' = flashes w \<and> session_logged_in w' = session_logged_in w
     \<and> session_username w' = session_username w
     \<and> (\<exists>ms. log w' = log w @ map (Pair INFO) ms)"
  using raised
proof
  let ?w2 = "logger INFO (''Checking if login exists: '' @ quote (strip fu))
                (logger INFO (''Login attempt for username: '' @ quote (strip fu)) w)"
  assume "fst (login_exists prefix (strip fu) s) = Inl e"
  then obtain s1 where le: "login_exists prefix (strip fu) s = (Inl e, s1)"
    by (cases "login_exists prefix (strip fu) s") simp
  have run: "login POST fu fp (Some prefix) w s = (RenderLogin, handle_exception (strip fu) e ?w2, s1)"
    using u pw by (simp add: login_def Let_def le)
  have "log ?w2 = log w @ map (Pair INFO)
          [''Login attempt for username: '' @ quote (strip fu),
           ''Checking if login exists: '' @ quote (strip fu)]"
    by (simp add: logger_fields)
  then have lg: "\<exists>ms. log ?w2 = log w @ map (Pair INFO) ms" by (rule exI)
  have rest: "flashes ?w2 = flashes w" "session_logged_in ?w2 = session_logged_in w"
    "session_username ?w2 = session_username w"
    by (simp_all add: logger_fields)
  show ?thesis
    by (rule exI [of _ ?w2], rule exI [of _ s1]) (use run lg rest in blast)
next
  let ?w4 = "logger INFO (''Attempting to get password for '' @ quote (strip fu))
               (logger INFO (''Login exists result for '' @ quote (strip fu) @ '': '' @ ''True'')
                 (logger INFO (''Checking if login exists: '' @ quote (strip fu))
                   (logger INFO (''Login attempt for username: '' @ quote (strip fu)) w)))"
  assume a: "fst (login_exists prefix (strip fu) s) = Inr True
          \<and> fst (get_password prefix (strip fu) (snd (login_exists prefix (strip fu) s))) = Inl e"
  then obtain s1 where le: "login_exists prefix (strip fu) s = (Inr True, s1)"
    by (cases "login_exists prefix (strip fu) s") simp
  with a obtain s2 where ge: "get_password prefix (strip fu) s1 = (Inl e, s2)"
    by (cases "get_password prefix (strip fu) s1") simp
  have run: "login POST fu fp (Some prefix) w s = (RenderLogin, handle_exception (strip fu) e ?w4, s2)"
    using u pw by (simp add: login_def Let_def le ge)
  have "log ?w4 = log w @ map (Pair INFO)
          [''Login attempt for username: '' @ quote (strip fu),
           ''Checking if login exists: '' @ quote (strip fu),
           ''Login exists result for '' @ quote (strip fu) @ '': '' @ ''True'',
           ''Attempting to get password for '' @ quote (strip fu)]"
    by (simp add: logger_fields)
  then have lg: "\<exists>ms. log ?w4 = log w @ map (Pair INFO) ms" by (rule exI)
  have rest: "flashes ?w4 = flashes w" "session_logged_in ?w4 = session_logged_in w"
    "session_username ?w4 = session_username w"
    by (simp_all add: logger_fields)
  show ?thesis
    by (rule exI [of _ ?w4], rule exI [of _ s2]) (use run lg rest in blast)
qed


lemma strip_alice: "strip ''alice'' = ''alice''" "strip '' secret '' = ''secret''"
  by (simp_all add: strip_def isspace_def)

lemma login_error_outcome:
  assumes "strip fu \<noteq> []" and "strip fp \<noteq> []"
    and "fst (login_exists prefix (strip fu) s) = Inl e
       \<or> (fst (login_exists prefix (strip fu) s) = Inr True
          \<and> fst (get_password prefix (strip fu) (snd (login_exists prefix (strip fu) s))) = Inl e)"
  shows "fst (login POST fu fp (Some prefix) w s) = RenderLogin
     \<and> flashes (fst (snd (login POST fu fp (Some prefix) w s))) = flashes w @
         [(if is_PasswordManagerError e then ''Authentication error: '' @ message e
           else ''System error occurred. Please try again.'', ''error'')]
     \<and> (\<exists>ms. log (fst (snd (login POST fu fp (Some prefix) w s))) = log w @ map (Pair INFO) ms @
         [(ERROR, (if is_PasswordManagerError e then ''PasswordManagerError during login for ''
                   else ''Unexpected error during login for '') @ quote (strip fu) @ '': '' @ message e)])
     \<and> session_logged_in (fst (snd (login POST fu fp (Some prefix) w s))) = session_logged_in w
     \<and> session_username (fst (snd (login POST fu fp (Some prefix) w s))) = session_username w"
proof -
  from login_raises [OF assms, of w] obtain w' s' ms where
    run: "login POST fu fp (Some prefix) w s = (RenderLogin, handle_exception (strip fu) e w', s')"
    and fl: "flashes w' = flashes w" and sl: "session_logged_in w' = session_logged_in w"
    and su: "session_username w' = session_username w"
    and lg: "log w' = log w @ map (Pair INFO) ms"
    by (elim exE conjE)
  have w1: "fst (snd (login POST fu fp (Some prefix) w s)) = handle_exception (strip fu) e w'"
    unfolding run by simp
  have c1: "fst (login POST fu fp (Some prefix) w s) = RenderLogin"
    unfolding run by simp
  have c2: "flashes (fst (snd (login POST fu fp (Some prefix) w s))) = flashes w @
         [(if is_PasswordManagerError e then ''Authentication error: '' @ message e
           else ''System error occurred. Please try again.'', ''error'')]"
    unfolding w1 handle_exception_flashes fl ..
  have "log (fst (snd (login POST fu fp (Some prefix) w s))) = (log w @ map (Pair INFO) ms) @
         [(ERROR, (if is_PasswordManagerError e then ''PasswordManagerError during login for ''
                   else ''Unexpected error during login for '') @ quote (strip fu) @ '': '' @ message e)]"
    unfolding w1 handle_exception_log lg ..
  then have "log (fst (snd (login POST fu fp (Some prefix) w s))) = log w @ map (Pair INFO) ms @
         [(ERROR, (if is_PasswordManagerError e then ''PasswordManagerError during login for ''
                   else ''Unexpected error during login for '') @ quote (strip fu) @ '': '' @ message e)]"
    by (simp only: append_assoc)
  then have c3: "\<exists>ms. log (fst (snd (login POST fu fp (Some prefix) w s))) = log w @ map (Pair INFO) ms @
         [(ERROR, (if is_PasswordManagerError e then ''PasswordManagerError during login for ''
                   else ''Unexpected error during login for '') @ quote (strip fu) @ '': '' @ message e)]"
    by (rule exI [of _ ms])
  have c4: "session_logged_in (fst (snd (login POST fu fp (Some prefix) w s))) = session_logged_in w"
    unfolding w1 handle_exception_session sl ..
  have c5: "session_username (fst (snd (login POST fu fp (Some prefix) w s))) = session_username w"
    unfolding w1 handle_exception_session su ..
  from c1 c2 c3 c4 c5 show ?thesis by (intro conjI)
qed


lemma login_exists_denied:
  "fst (login_exists ''/passwords/'' ''alice'' world_denied)
     = Inl (AWSError ''Failed to get password: An error occurred (AccessDeniedException) when calling the GetParameter operation: not authorized'')"
  by (simp add: login_exists_def get_password_def get_parameter_def request_def
      world_denied_def world0_def denied_def)

text \<open>
  C3, as stated, says that the message shown for a manager error never includes the
  internal error text. The \<^verbatim>\<open>except PasswordManagerError\<close> clause flashes
  \<^verbatim>\<open>f'Authentication error: {e}'\<close>: when the service refuses the lookup, the text of the
  manager's \<open>AWSError\<close>, with the service's own message in it, is flashed to the login page.
\<close>

theorem login_shows_error_text_counterexample:
  "fst (login_exists ''/passwords/'' ''alice'' world_denied)
     = Inl (AWSError ''Failed to get password: An error occurred (AccessDeniedException) when calling the GetParameter operation: not authorized'')
   \<and> flashes (fst (snd (login POST ''alice'' '' secret '' (Some ''/passwords/'') web0 world_denied)))
     = [(''Authentication error: Failed to get password: An error occurred (AccessDeniedException) when calling the GetParameter operation: not authorized'', ''error'')]"
proof -
  have h1: "strip ''alice'' \<noteq> []" and h2: "strip '' secret '' \<noteq> []"
    by (simp_all add: strip_alice)
  have h3: "fst (login_exists ''/passwords/'' (strip ''alice'') world_denied)
       = Inl (AWSError ''Failed to get password: An error occurred (AccessDeniedException) when calling the GetParameter operation: not authorized'')
     \<or> (fst (login_exists ''/passwords/'' (strip ''alice'') world_denied) = Inr True
        \<and> fst (get_password ''/passwords/'' (strip ''alice'')
                 (snd (login_exists ''/passwords/'' (strip ''alice'') world_denied)))
            = Inl (AWSError ''Failed to get password: An error occurred (AccessDeniedException) when calling the GetParameter operation: not authorized''))"
    unfolding strip_alice using login_exists_denied by (rule disjI1)
  have "flashes (fst (snd (login POST ''alice'' '' secret '' (Some ''/passwords/'') web0 world_denied)))
      = flashes web0 @ [(if is_PasswordManagerError (AWSError ''Failed to get password: An error occurred (AccessDeniedException) when calling the GetParameter operation: not authorized'')
          then ''Authentication error: '' @ message (AWSError ''Failed to get password: An error occurred (AccessDeniedException) when calling the GetParameter operation: not authorized'')
          else ''System error occurred. Please try again.'', ''error'')]"
    using login_error_outcome [OF h1 h2 h3, of web0] by (elim conjE)
  then have "flashes (fst (snd (login POST ''alice'' '' secret '' (Some ''/passwords/'') web0 world_denied)))
     = [(''Authentication error: Failed to get password: An error occurred (AccessDeniedException) when calling the GetParameter operation: not authorized'', ''error'')]"
    by (simp add: web0_def)
  with login_exists_denied show ?thesis by (rule conjI)
qed

text \<open>
  C3, amended: when a login POST with non-empty (stripped) credentials runs into an error
  of the manager, raised by \<open>exists\<close> or by the \<open>get\<close> that follows a positive
  \<open>exists\<close>, the login page is rendered again, the session stays as it was, and one
  message of category \<open>error\<close> is flashed: for a \<open>PasswordManagerError\<close> it is
  \<open>Authentication error: \<close> followed by the error's own message; only for an exception
  that is not a \<open>PasswordManagerError\<close> it is the fixed text
  \<open>System error occurred. Please try again.\<close>. In both cases the error's message is
  logged server-side at level \<open>ERROR\<close>, after the informational entries of the attempt.
\<close>

theorem login_error_messages:
  assumes "strip fu \<noteq> []" and "strip fp \<noteq> []"
    and "fst (login_exists prefix (strip fu) s) = Inl e
       \<or> (fst (login_exists prefix (strip fu) s) = Inr True
          \<and> fst (get_password prefix (strip fu) (snd (login_exists prefix (strip fu) s))) = Inl e)"
  shows "fst (login POST fu fp (Some prefix) w s) = RenderLogin
     \<and> flashes (fst (snd (login POST fu fp (Some prefix) w s))) = flashes w @
         [(if is_PasswordManagerError e then ''Authentication error: '' @ message e
           else ''System error occurred. Please try again.'', ''error'')]
     \<and> (\<exists>ms. log (fst (snd (login POST fu fp (Some prefix) w s))) = log w @ map (Pair INFO) ms @
         [(ERROR, (if is_PasswordManagerError e then ''PasswordManagerError during login for ''
                   else ''Unexpected error during login for '') @ quote (strip fu) @ '': '' @ message e)])
     \<and> session_logged_in (fst (snd (login POST fu fp (Some prefix) w s))) = session_logged_in w
     \<and> session_username (fst (snd (login POST fu fp (Some prefix) w s))) = session_username w"
  using assms by (rule login_error_outcome)

lemma login_exists_offline:
  "fst (login_exists ''/passwords/'' ''alice'' world_offline)
     = Inl (Uncaught ''Could not connect to the endpoint URL'')"
  by (simp add: login_exists_def get_password_def get_parameter_def request_def
      world_offline_def world0_def)

theorem login_error_messages_witness:
  "flashes (fst (snd (login POST ''alice'' '' secret '' (Some ''/passwords/'') web0 world_denied)))
     = [(''Authentication error: Failed to get password: An error occurred (AccessDeniedException) when calling the GetParameter operation: not authorized'', ''error'')]
   \<and> fst (login POST ''alice'' '' secret '' (Some ''/passwords/'') web0 world_denied) = RenderLogin
   \<and> flashes (fst (snd (login POST ''alice'' '' secret '' (Some ''/passwords/'') web0 world_offline)))
     = [(''System error occurred. Please try again.'', ''error'')]
   \<and> fst (login POST ''alice'' '' secret '' (Some ''/passwords/'') web0 world_offline) = RenderLogin"
proof -
  have h1: "strip ''alice'' \<noteq> []" and h2: "strip '' secret '' \<noteq> []"
    by (simp_all add: strip_alice)
  have h3: "fst (login_exists ''/passwords/'' (strip ''alice'') world_offline)
       = Inl (Uncaught ''Could not connect to the endpoint URL'')
     \<or> (fst (login_exists ''/passwords/'' (strip ''alice'') world_offline) = Inr True
        \<and> fst (get_password ''/passwords/'' (strip ''alice'')
                 (snd (login_exists ''/passwords/'' (strip ''alice'') world_offline)))
            = Inl (Uncaught ''Could not connect to the endpoint URL''))"
    unfolding strip_alice using login_exists_offline by (rule disjI1)
  have k3: "fst (login_exists ''/passwords/'' (strip ''alice'') world_denied)
       = Inl (AWSError ''Failed to get password: An error occurred (AccessDeniedException) when calling the GetParameter operation: not authorized'')
     \<or> (fst (login_exists ''/passwords/'' (strip ''alice'') world_denied) = Inr True
        \<and> fst (get_password ''/passwords/'' (strip ''alice'')
                 (snd (login_exists ''/passwords/'' (strip ''alice'') world_denied)))
            = Inl (AWSError ''Failed to get password: An error occurred (AccessDeniedException) when calling the GetParameter operation: not authorized''))"
    unfolding strip_alice using login_exists_denied by (rule disjI1)
  note t = login_error_messages [OF h1 h2 h3, of web0]
  note u = login_error_messages [OF h1 h2 k3, of web0]
  have "flashes (fst (snd (login POST ''alice'' '' secret '' (Some ''/passwords/'') web0 world_offline)))
      = flashes web0 @ [(if is_PasswordManagerError (Uncaught ''Could not connect to the endpoint URL'')
          then ''Authentication error: '' @ message (Uncaught ''Could not connect to the endpoint URL'')
          else ''System error occurred. Please try again.'', ''error'')]"
    using t by (elim conjE)
  then have a: "flashes (fst (snd (login POST ''alice'' '' secret '' (Some ''/passwords/'') web0 world_offline)))
     = [(''System error occurred. Please try again.'', ''error'')]"
    by (simp add: web0_def)
  have b: "fst (login POST ''alice'' '' secret '' (Some ''/passwords/'') web0 world_offline) = RenderLogin"
    using t by (elim conjE)
  have "flashes (fst (snd (login POST ''alice'' '' secret '' (Some ''/passwords/'') web0 world_denied)))
      = flashes web0 @ [(if is_PasswordManagerError (AWSError ''Failed to get password: An error occurred (AccessDeniedException) when calling the GetParameter operation: not authorized'')
          then ''Authentication error: '' @ message (AWSError ''Failed to get password: An error occurred (AccessDeniedException) when calling the GetParameter operation: not authorized'')
          else ''System error occurred. Please try again.'', ''error'')]"
    using u by (elim conjE)
  then have c: "flashes (fst (snd (login POST ''alice'' '' secret '' (Some ''/passwords/'') web0 world_denied)))
     = [(''Authentication error: Failed to get password: An error occurred (AccessDeniedException) when calling the GetParameter operation: not authorized'', ''error'')]"
    by (simp add: web0_def)
  have d: "fst (login POST ''alice'' '' secret '' (Some ''/passwords/'') web0 world_denied) = RenderLogin"
    using u by (elim conjE)
  from c d a b show ?thesis by (intro conjI)
qed

text \<open>
  Credentials that are blank after stripping, whatever whitespace they are made of, never
  reach the manager: the view asks for both fields and the world is left as it was.
\<close>

lemma strip_blank: "strip [CHR 0xA0] = []" "strip [CHR 0x85, CHR '' '', CHR 0x09] = []"
  by (simp_all add: strip_def isspace_def)

lemma login_blank_credentials:
  assumes "strip fu = [] \<or> strip fp = []"
  shows "fst (login POST fu fp (Some prefix) w s) = RenderLogin"
    and "flashes (fst (snd (login POST fu fp (Some prefix) w s)))
           = flashes w @ [(''Please enter both username and password'', ''error'')]"
    and "snd (snd (login POST fu fp (Some prefix) w s)) = s"
  using assms by (simp_all add: login_def Let_def flash_def logger_def)

lemma login_blank_username:
  "flashes (fst (snd (login POST [CHR 0xA0] ''secret'' (Some ''/passwords/'') web0 world_denied)))
     = [(''Please enter both username and password'', ''error'')]
   \<and> snd (snd (login POST [CHR 0xA0] ''secret'' (Some ''/passwords/'') web0 world_denied))
       = world_denied"
proof -
  have b: "strip [CHR 0xA0] = [] \<or> strip ''secret'' = []"
    by (simp add: strip_blank)
  from login_blank_credentials(2) [OF b, of "''/passwords/''" web0 world_denied]
    login_blank_credentials(3) [OF b, of "''/passwords/''" web0 world_denied]
  show ?thesis by (simp add: web0_def)
qed

section \<open>Validation errors\<close>

lemma create_login_not_validation:
  "lg \<noteq> [] \<Longrightarrow> fst (create_login p lg pw s) \<noteq> Inl (ValidationError m)"
  by (simp add: create_login_def split: prod.splits sum.splits exn.splits option.splits)

lemma update_login_not_validation:
  "lg \<noteq> [] \<Longrightarrow> pw \<noteq> [] \<Longrightarrow> fst (update_login p lg pw s) \<noteq> Inl (ValidationError m)"
  by (simp add: update_login_def split: prod.splits sum.splits exn.splits)

lemma delete_login_not_validation:
  "lg \<noteq> [] \<Longrightarrow> fst (delete_login p lg s) \<noteq> Inl (ValidationError m)"
  by (simp add: delete_login_def split: prod.splits sum.splits exn.splits)

lemma get_login_info_not_validation:
  "lg \<noteq> [] \<Longrightarrow> fst (get_login_info p lg s) \<noteq> Inl (ValidationError m)"
  by (simp add: get_login_info_def split: prod.splits sum.splits exn.splits list.splits)

lemma login_exists_not_validation:
  "lg \<noteq> [] \<Longrightarrow> fst (login_exists p lg s) \<noteq> Inl (ValidationError m)"
  using login_exists_validation_iff [of p lg s] by blast

lemma list_logins_not_validation:
  "fst (list_logins p s) \<noteq> Inl (ValidationError m)"
  by (simp add: list_logins_def split: prod.splits sum.splits exn.splits)

lemma generate_password_nonempty: "fst (generate_password len s) \<noteq> []"
proof
  assume "fst (generate_password len s) = []"
  then have "length (fst (generate_password len s)) = 0" by simp
  then show False by (simp add: generate_password_length)
qed

lemma rotate_password_not_validation:
  assumes "lg \<noteq> []"
  shows "fst (rotate_password p lg len s) \<noteq> Inl (ValidationError m)"
proof (cases "get_password p lg s")
  case (Pair r s1)
  show ?thesis
  proof (cases r)
    case (Inl e)
    with Pair assms get_password_not_validation [OF assms, of p s m] show ?thesis
      by (simp add: rotate_password_def)
  next
    case (Inr old)
    obtain new s2 where g: "generate_password (Some (case len of None \<Rightarrow> 16 | Some l \<Rightarrow> l)) s1 = (new, s2)"
      by (cases "generate_password (Some (case len of None \<Rightarrow> 16 | Some l \<Rightarrow> l)) s1")
    with generate_password_nonempty [of "Some (case len of None \<Rightarrow> 16 | Some l \<Rightarrow> l)" s1]
    have "new \<noteq> []" by simp
    from update_login_not_validation [OF assms this, of p s2 m]
    show ?thesis using Pair Inr g assms
      by (auto simp add: rotate_password_def split: prod.splits sum.splits)
  qed
qed


text \<open>
  C4: every operation of the manager called with an empty required argument (the login
  of create, update, delete, get, exists, rotate and info, and the password of update)
  returns the \<open>Validation\<close> error together with the world it was given: no request has
  been sent (the record of calls, the pending faults and the clock are those of before)
  and no random value has been drawn. Conversely, whenever an operation ends in a
  \<open>Validation\<close> error, the argument was empty and the world is unchanged; listing, which
  has no argument, never ends in one.
\<close>

theorem validation_is_local:
  "create_login p [] pw s = (Inl (ValidationError ''Login cannot be empty''), s)
   \<and> update_login p [] v s = (Inl (ValidationError ''Login cannot be empty''), s)
   \<and> (lg \<noteq> [] \<longrightarrow> update_login p lg [] s = (Inl (ValidationError ''Password cannot be empty''), s))
   \<and> delete_login p [] s = (Inl (ValidationError ''Login cannot be empty''), s)
   \<and> get_password p [] s = (Inl (ValidationError ''Login cannot be empty''), s)
   \<and> login_exists p [] s = (Inl (ValidationError ''Login cannot be empty''), s)
   \<and> rotate_password p [] len s = (Inl (ValidationError ''Login cannot be empty''), s)
   \<and> get_login_info p [] s = (Inl (ValidationError ''Login cannot be empty''), s)
   \<and> (\<forall>m. fst (create_login p lg pw s) = Inl (ValidationError m) \<longrightarrow>
          lg = [] \<and> snd (create_login p lg pw s) = s)
   \<and> (\<forall>m. fst (update_login p lg v s) = Inl (ValidationError m) \<longrightarrow>
          (lg = [] \<or> v = []) \<and> snd (update_login p lg v s) = s)
   \<and> (\<forall>m. fst (delete_login p lg s) = Inl (ValidationError m) \<longrightarrow>
          lg = [] \<and> snd (delete_login p lg s) = s)
   \<and> (\<forall>m. fst (get_password p lg s) = Inl (ValidationError m) \<longrightarrow>
          lg = [] \<and> snd (get_password p lg s) = s)
   \<and> (\<forall>m. fst (login_exists p lg s) = Inl (ValidationError m) \<longrightarrow>
          lg = [] \<and> snd (login_exists p lg s) = s)
   \<and> (\<forall>m. fst (rotate_password p lg len s) = Inl (ValidationError m) \<longrightarrow>
          lg = [] \<and> snd (rotate_password p lg len s) = s)
   \<and> (\<forall>m. fst (get_login_info p lg s) = Inl (ValidationError m) \<longrightarrow>
          lg = [] \<and> snd (get_login_info p lg s) = s)
   \<and> (\<forall>m. fst (list_logins p s) \<noteq> Inl (ValidationError m))"
proof -
  have e1: "create_login p [] pw s = (Inl (ValidationError ''Login cannot be empty''), s)"
    by (simp add: create_login_def)
  have e2: "update_login p [] v s = (Inl (ValidationError ''Login cannot be empty''), s)"
    by (simp add: update_login_def)
  have e3: "lg \<noteq> [] \<longrightarrow> update_login p lg [] s = (Inl (ValidationError ''Password cannot be empty''), s)"
    by (simp add: update_login_def)
  have e4: "delete_login p [] s = (Inl (ValidationError ''Login cannot be empty''), s)"
    by (simp add: delete_login_def)
  have e5: "get_password p [] s = (Inl (ValidationError ''Login cannot be empty''), s)"
    by (simp add: get_password_def)
  have e6: "login_exists p [] s = (Inl (ValidationError ''Login cannot be empty''), s)"
    by (simp add: login_exists_def)
  have e7: "rotate_password p [] len s = (Inl (ValidationError ''Login cannot be empty''), s)"
    by (simp add: rotate_password_def)
  have e8: "get_login_info p [] s = (Inl (ValidationError ''Login cannot be empty''), s)"
    by (simp add: get_login_info_def)
  have c1: "\<forall>m. fst (create_login p lg pw s) = Inl (ValidationError m) \<longrightarrow>
          lg = [] \<and> snd (create_login p lg pw s) = s"
    using create_login_not_validation [of lg p pw s] by (cases "lg = []") (simp_all add: create_login_def)
  have c2: "\<forall>m. fst (update_login p lg v s) = Inl (ValidationError m) \<longrightarrow>
          (lg = [] \<or> v = []) \<and> snd (update_login p lg v s) = s"
    using update_login_not_validation [of lg v p s]
    by (cases "lg = [] \<or> v = []") (auto simp add: update_login_def)
  have c3: "\<forall>m. fst (delete_login p lg s) = Inl (ValidationError m) \<longrightarrow>
          lg = [] \<and> snd (delete_login p lg s) = s"
    using delete_login_not_validation [of lg p s] by (cases "lg = []") (simp_all add: delete_login_def)
  have c4: "\<forall>m. fst (get_password p lg s) = Inl (ValidationError m) \<longrightarrow>
          lg = [] \<and> snd (get_password p lg s) = s"
    using get_password_not_validation [of lg p s] by (cases "lg = []") (simp_all add: get_password_def)
  have c5: "\<forall>m. fst (login_exists p lg s) = Inl (ValidationError m) \<longrightarrow>
          lg = [] \<and> snd (login_exists p lg s) = s"
    using login_exists_not_validation [of lg p s] by (cases "lg = []") (simp_all add: login_exists_def)
  have c6: "\<forall>m. fst (rotate_password p lg len s) = Inl (ValidationError m) \<longrightarrow>
          lg = [] \<and> snd (rotate_password p lg len s) = s"
    using rotate_password_not_validation [of lg p len s]
    by (cases "lg = []") (simp_all add: rotate_password_def)
  have c7: "\<forall>m. fst (get_login_info p lg s) = Inl (ValidationError m) \<longrightarrow>
          lg = [] \<and> snd (get_login_info p lg s) = s"
    using get_login_info_not_validation [of lg p s]
    by (cases "lg = []") (simp_all add: get_login_info_def)
  have c8: "\<forall>m. fst (list_logins p s) \<noteq> Inl (ValidationError m)"
    using list_logins_not_validation [of p s] by blast
  from e1 e2 e3 e4 e5 e6 e7 e8 c1 c2 c3 c4 c5 c6 c7 c8 show ?thesis by (intro conjI)
qed

theorem validation_is_local_witness:
  "snd (rotate_password ''/passwords/'' [] (Some 24) world_denied) = world_denied
   \<and> calls (snd (update_login ''/passwords/'' ''alice'' [] world_alice)) = calls world_alice
   \<and> pending (snd (get_login_info ''/passwords/'' [] world_denied)) = pending world_denied"
proof -
  note t = validation_is_local [of "''/passwords/''" None world_denied "''x''" "''alice''" "Some 24"]
  have "rotate_password ''/passwords/'' [] (Some 24) world_denied
          = (Inl (ValidationError ''Login cannot be empty''), world_denied)"
    using t by (elim conjE)
  moreover have "get_login_info ''/passwords/'' [] world_denied
          = (Inl (ValidationError ''Login cannot be empty''), world_denied)"
    using t by (elim conjE)
  moreover have "''alice'' \<noteq> [] \<longrightarrow> update_login ''/passwords/'' ''alice'' [] world_alice
        = (Inl (ValidationError ''Password cannot be empty''), world_alice)"
    using validation_is_local [of "''/passwords/''" None world_alice "''x''" "''alice''" "Some 24"]
    by (elim conjE)
  ultimately show ?thesis by simp
qed

section \<open>Writes\<close>

lemma put_parameter_healthy:
  "pending s = [] \<Longrightarrow> put_parameter k v t ov d tags s =
     (case map_of (parameters s) k of
        None \<Rightarrow> (Inr (), (sent (PutParameter k ov) s)\<lparr>parameters := AList.update k
                    \<lparr>Value = v, Type = t, Description = d, Tags = tags,
                     Version = 1, LastModifiedDate = Suc (clock s)\<rparr> (parameters s)\<rparr>)
      | Some old \<Rightarrow>
          if ov then (Inr (), (sent (PutParameter k ov) s)\<lparr>parameters := AList.update k
                      (old\<lparr>Value := v, Type := t, Description := d,
                           Version := Suc (Version old), LastModifiedDate := Suc (clock s)\<rparr>)
                      (parameters s)\<rparr>)
          else (Inl (ClientError ''ParameterAlreadyExists'' already_exists_text),
                sent (PutParameter k ov) s))"
  by (simp add: put_parameter_def request_healthy split: option.splits)

lemma add_tags_healthy:
  "pending s = [] \<Longrightarrow> add_tags_to_resource k tags s =
     (case map_of (parameters s) k of
        None \<Rightarrow> (Inl (ClientError ''InvalidResourceId'' invalid_resource_text),
                 sent (AddTagsToResource k) s)
      | Some old \<Rightarrow> (Inr (), (sent (AddTagsToResource k) s)\<lparr>parameters := AList.update k
                    (old\<lparr>Tags := fold (\<lambda>(k, v). AList.update k v) tags (Tags old)\<rparr>)
                    (parameters s)\<rparr>))"
  by (simp add: add_tags_to_resource_def request_healthy split: option.splits)

lemma delete_parameter_healthy:
  "pending s = [] \<Longrightarrow> delete_parameter k s =
     (case map_of (parameters s) k of
        None \<Rightarrow> (Inl (ClientError ''ParameterNotFound'' not_found_text), sent (DeleteParameter k) s)
      | Some r \<Rightarrow> (Inr (), (sent (DeleteParameter k) s)\<lparr>parameters := AList.delete k (parameters s)\<rparr>))"
  by (simp add: delete_parameter_def request_healthy split: option.splits)

lemma generate_password_fields [simp]:
  "parameters (snd (generate_password len s)) = parameters s"
  "pending (snd (generate_password len s)) = pending s"
  "calls (snd (generate_password len s)) = calls s"
  "clock (snd (generate_password len s)) = clock s"
  by (simp_all add: generate_password_world)

lemma generate_password_result:
  "generate_password len s = (x, s1) \<Longrightarrow>
     parameters s1 = parameters s \<and> pending s1 = pending s \<and> calls s1 = calls s"
  using generate_password_fields [of len s] by simp

text \<open>The world in which create sends its request: after the password has been drawn, if one is.\<close>

lemma create_login_new:
  assumes "lg \<noteq> []" and "pending s = []" and "map_of (parameters s) (p @ lg) = None"
  shows "create_login p lg (Some x) s =
           (Inr x, (sent (PutParameter (p @ lg) False) s)\<lparr>parameters := AList.update (p @ lg)
              \<lparr>Value = x, Type = ''SecureString'', Description = ''Password for login: '' @ lg,
               Tags = [(''Type'', ''Password''), (''Login'', lg)],
               Version = 1, LastModifiedDate = Suc (clock s)\<rparr> (parameters s)\<rparr>)"
    and "create_login p lg None s =
           (Inr (fst (generate_password None s)),
            (sent (PutParameter (p @ lg) False) (snd (generate_password None s)))
              \<lparr>parameters := AList.update (p @ lg)
              \<lparr>Value = fst (generate_password None s), Type = ''SecureString'',
               Description = ''Password for login: '' @ lg,
               Tags = [(''Type'', ''Password''), (''Login'', lg)],
               Version = 1, LastModifiedDate = Suc (clock s)\<rparr> (parameters s)\<rparr>)"
  using assms
  by (simp_all add: create_login_def put_parameter_healthy case_prod_beta)

lemma create_login_held:
  assumes "lg \<noteq> []" and "pending s = []" and "map_of (parameters s) (p @ lg) = Some r"
  shows "fst (create_login p lg pw s) = Inl (LoginAlreadyExistsError
           (''Login '' @ quote lg @ '' already exists. Use update to modify existing login.''))"
  using assms
  by (cases pw) (simp_all add: create_login_def put_parameter_healthy case_prod_beta)

lemma put_parameter_no_overwrite_parameters:
  "map_of (parameters s) k = Some r \<Longrightarrow>
     parameters (snd (put_parameter k v t False d tags s)) = parameters s"
  by (simp add: put_parameter_def request_def split: list.splits option.splits)

lemma create_login_held_parameters:
  assumes "map_of (parameters s) (p @ lg) = Some r"
  shows "parameters (snd (create_login p lg pw s)) = parameters s"
proof (cases "lg = []")
  case True
  then show ?thesis by (simp add: create_login_def)
next
  case False
  obtain x s1 where g: "(case pw of None \<Rightarrow> generate_password None s | Some q \<Rightarrow> (q, s)) = (x, s1)"
    by (cases "case pw of None \<Rightarrow> generate_password None s | Some q \<Rightarrow> (q, s)")
  then have "parameters s1 = parameters s"
    by (cases pw) (auto dest: generate_password_result)
  with assms have "parameters (snd (put_parameter (p @ lg) x ''SecureString'' False
                     (''Password for login: '' @ lg)
                     [(''Type'', ''Password''), (''Login'', lg)] s1)) = parameters s"
    by (simp add: put_parameter_no_overwrite_parameters)
  with False g show ?thesis
    by (auto simp add: create_login_def split: prod.splits sum.splits exn.splits)
qed

section \<open>Create\<close>

lemma create_login_new_world:
  assumes "lg \<noteq> []" and "pending s = []" and "map_of (parameters s) (p @ lg) = None"
  shows "pending (snd (create_login p lg pw s)) = []"
    and "map_of (parameters (snd (create_login p lg pw s))) (p @ lg)
           = Some \<lparr>Value = (case pw of None \<Rightarrow> fst (generate_password None s) | Some x \<Rightarrow> x),
                    Type = ''SecureString'', Description = ''Password for login: '' @ lg,
                    Tags = [(''Type'', ''Password''), (''Login'', lg)],
                    Version = 1, LastModifiedDate = Suc (clock s)\<rparr>"
    and "fst (create_login p lg pw s)
           = Inr (case pw of None \<Rightarrow> fst (generate_password None s) | Some x \<Rightarrow> x)"
    and "drawn (snd (create_login p lg pw s)) = (case pw of None \<Rightarrow> drawn s + 16 | Some x \<Rightarrow> drawn s)"
  using assms
  by (cases pw; simp add: create_login_new update_conv' generate_password_world)+

text \<open>
  C5: for every non-empty name that the store does not hold, and a store that serves the
  request, create returns the password it has stored under the name, which is the
  supplied one, or the generated one when the password is omitted; a get of the name
  that follows returns that same password; a password generated by create (default
  length) has 16 characters, hence at least 16.
\<close>

theorem create_then_get:
  assumes "lg \<noteq> []" and "map_of (parameters s) (p @ lg) = None" and "pending s = []"
  shows "\<exists>stored. fst (create_login p lg pw s) = Inr stored
     \<and> map_option Value (map_of (parameters (snd (create_login p lg pw s))) (p @ lg)) = Some stored
     \<and> fst (get_password p lg (snd (create_login p lg pw s))) = Inr stored
     \<and> (case pw of
          Some x \<Rightarrow> stored = x
        | None \<Rightarrow> stored = fst (generate_password None s) \<and> length stored = 16 \<and> 16 \<le> length stored)"
proof -
  let ?stored = "case pw of None \<Rightarrow> fst (generate_password None s) | Some x \<Rightarrow> x"
  note w = create_login_new_world [OF assms(1) assms(3) assms(2), of pw]
  have a: "fst (create_login p lg pw s) = Inr ?stored" by (rule w(3))
  have b: "map_option Value (map_of (parameters (snd (create_login p lg pw s))) (p @ lg)) = Some ?stored"
    by (simp add: w(2))
  have c: "fst (get_password p lg (snd (create_login p lg pw s))) = Inr ?stored"
    by (simp add: get_password_healthy [OF assms(1) w(1)] w(2))
  have d: "case pw of
          Some x \<Rightarrow> ?stored = x
        | None \<Rightarrow> ?stored = fst (generate_password None s) \<and> length ?stored = 16 \<and> 16 \<le> length ?stored"
    by (cases pw) (simp_all add: generate_password_length)
  from a b c d show ?thesis by blast
qed

theorem create_then_get_witness:
  "fst (get_password ''/passwords/'' ''alice'' (snd (create_login ''/passwords/'' ''alice'' None world0)))
     = fst (create_login ''/passwords/'' ''alice'' None world0)
   \<and> fst (create_login ''/passwords/'' ''bob'' (Some ''hunter2'') world_alice) = Inr ''hunter2''"
proof -
  have h1: "''alice'' \<noteq> []" and h2: "map_of (parameters world0) (''/passwords/'' @ ''alice'') = None"
    and h3: "pending world0 = []"
    by (simp_all add: world0_def)
  have k1: "''bob'' \<noteq> []" and k2: "map_of (parameters world_alice) (''/passwords/'' @ ''bob'') = None"
    and k3: "pending world_alice = []"
    by (simp_all add: world_alice_def world0_def)
  from create_then_get [OF h1 h2 h3, of None]
  have "fst (get_password ''/passwords/'' ''alice'' (snd (create_login ''/passwords/'' ''alice'' None world0)))
     = fst (create_login ''/passwords/'' ''alice'' None world0)"
    by (elim exE conjE) simp
  moreover from create_then_get [OF k1 k2 k3, of "Some ''hunter2''"]
  have "fst (create_login ''/passwords/'' ''bob'' (Some ''hunter2'') world_alice) = Inr ''hunter2''"
    by (elim exE conjE) simp
  ultimately show ?thesis by (rule conjI)
qed

section \<open>Create with an empty password\<close>

lemma put_parameter_trace:
  "calls (snd (put_parameter k v t ov d tg s)) = calls s @ [PutParameter k ov]"
  "drawn (snd (put_parameter k v t ov d tg s)) = drawn s"
  by (simp_all add: put_parameter_def request_def split: list.splits option.splits)

lemma put_parameter_refused:
  "pending s = Some e # fs \<Longrightarrow>
     fst (put_parameter k v t ov d tg s) = Inl e
     \<and> parameters (snd (put_parameter k v t ov d tg s)) = parameters s"
  by (simp add: put_parameter_def request_def)

lemma create_login_supplied:
  assumes "lg \<noteq> []"
  shows "snd (create_login p lg (Some x) s)
           = snd (put_parameter (p @ lg) x ''SecureString'' False (''Password for login: '' @ lg)
                    [(''Type'', ''Password''), (''Login'', lg)] s)"
    and "(fst (create_login p lg (Some x) s) = Inr y) \<longleftrightarrow>
           (y = x \<and> fst (put_parameter (p @ lg) x ''SecureString'' False (''Password for login: '' @ lg)
                    [(''Type'', ''Password''), (''Login'', lg)] s) = Inr ())"
  using assms
  by (auto simp add: create_login_def split: prod.splits sum.splits exn.splits)

lemma create_login_refused:
  assumes "lg \<noteq> []" and "pending s = Some (ClientError code text) # fs"
    and "code \<noteq> ''ParameterAlreadyExists''"
  shows "fst (create_login p lg (Some x) s) = Inl (AWSError (''Failed to create login: '' @ text))"
    and "parameters (snd (create_login p lg (Some x) s)) = parameters s"
proof -
  let ?put = "put_parameter (p @ lg) x ''SecureString'' False (''Password for login: '' @ lg)
                    [(''Type'', ''Password''), (''Login'', lg)] s"
  from put_parameter_refused [OF assms(2)]
  have f: "fst ?put = Inl (ClientError code text)" and q: "parameters (snd ?put) = parameters s"
    by simp_all
  obtain s2 where e: "?put = (Inl (ClientError code text), s2)"
    using f by (cases ?put) simp
  show "fst (create_login p lg (Some x) s) = Inl (AWSError (''Failed to create login: '' @ text))"
    using assms(1) assms(3) e by (simp add: create_login_def)
  show "parameters (snd (create_login p lg (Some x) s)) = parameters s"
    using q by (simp add: create_login_supplied(1) [OF assms(1)])
qed

lemma create_login_generates:
  "lg \<noteq> [] \<Longrightarrow> drawn (snd (create_login p lg None s)) = drawn s + 16"
proof -
  assume ne: "lg \<noteq> []"
  obtain x s1 where g: "generate_password None s = (x, s1)" by (cases "generate_password None s")
  then have d: "drawn s1 = drawn s + 16"
    using generate_password_world [of None s] by simp
  have "snd (create_login p lg None s)
          = snd (put_parameter (p @ lg) x ''SecureString'' False (''Password for login: '' @ lg)
                    [(''Type'', ''Password''), (''Login'', lg)] s1)"
    using ne g by (auto simp add: create_login_def split: prod.splits sum.splits exn.splits)
  then show ?thesis by (simp add: put_parameter_trace d)
qed


text \<open>
  C10, as stated, says that create with the empty string as password stores the empty
  string and returns it. Create passes the empty string on without a check, and what
  happens to it is the store's answer: the parameter service refuses an empty value, and
  then create raises \<open>AWSError\<close> and nothing is stored.
\<close>

theorem create_empty_password_refused_counterexample:
  "map_of (parameters world_refusing) (''/passwords/'' @ ''bob'') = None
   \<and> fst (create_login ''/passwords/'' ''bob'' (Some []) world_refusing)
       = Inl (AWSError ''Failed to create login: An error occurred (ValidationException) when calling the PutParameter operation: Member must have length greater than or equal to 1'')
   \<and> parameters (snd (create_login ''/passwords/'' ''bob'' (Some []) world_refusing)) = []"
proof -
  have h1: "''bob'' \<noteq> []" by simp
  have h2: "pending world_refusing = Some (ClientError ''ValidationException''
     ''An error occurred (ValidationException) when calling the PutParameter operation: Member must have length greater than or equal to 1'') # []"
    by (simp add: world_refusing_def world0_def)
  have h3: "''ValidationException'' \<noteq> ''ParameterAlreadyExists''" by simp
  have e: "parameters world_refusing = []"
    by (simp add: world_refusing_def world0_def)
  have a: "map_of (parameters world_refusing) (''/passwords/'' @ ''bob'') = None"
    by (simp add: e)
  have b: "fst (create_login ''/passwords/'' ''bob'' (Some []) world_refusing)
       = Inl (AWSError ''Failed to create login: An error occurred (ValidationException) when calling the PutParameter operation: Member must have length greater than or equal to 1'')"
    using create_login_refused(1) [OF h1 h2 h3, of "''/passwords/''" "[]"] by simp
  have c: "parameters (snd (create_login ''/passwords/'' ''bob'' (Some []) world_refusing)) = []"
    using create_login_refused(2) [OF h1 h2 h3, of "''/passwords/''" "[]"] by (simp add: e)
  from a b c show ?thesis by (intro conjI)
qed

text \<open>
  C10, amended: create performs no validation of the password argument. For every
  non-empty name, in any world, create with the empty string as password raises no
  \<open>Validation\<close> error and draws no random value (only the omitted password is
  generated: 16 values are drawn then); it sends one request, the put without overwrite,
  with the empty string as the value, and succeeds exactly when the store accepts that
  put, returning the empty string then. When the store refuses the request with an
  error other than \<open>ParameterAlreadyExists\<close>, as the parameter service does for an empty
  value, create raises \<open>AWSError\<close> with the store's text and no record is changed.
  Update, in contrast, rejects an empty password with \<open>Validation\<close> before any request.
\<close>

theorem create_passes_empty_password:
  assumes "lg \<noteq> []"
  shows "(\<forall>m. fst (create_login p lg (Some []) s) \<noteq> Inl (ValidationError m))
     \<and> drawn (snd (create_login p lg (Some []) s)) = drawn s
     \<and> calls (snd (create_login p lg (Some []) s)) = calls s @ [PutParameter (p @ lg) False]
     \<and> snd (create_login p lg (Some []) s)
         = snd (put_parameter (p @ lg) [] ''SecureString'' False (''Password for login: '' @ lg)
                  [(''Type'', ''Password''), (''Login'', lg)] s)
     \<and> (\<forall>y. fst (create_login p lg (Some []) s) = Inr y \<longleftrightarrow>
            (y = [] \<and> fst (put_parameter (p @ lg) [] ''SecureString'' False
                             (''Password for login: '' @ lg)
                             [(''Type'', ''Password''), (''Login'', lg)] s) = Inr ()))
     \<and> (\<forall>code text fs. pending s = Some (ClientError code text) # fs
            \<and> code \<noteq> ''ParameterAlreadyExists'' \<longrightarrow>
            fst (create_login p lg (Some []) s)
              = Inl (AWSError (''Failed to create login: '' @ text))
            \<and> parameters (snd (create_login p lg (Some []) s)) = parameters s)
     \<and> drawn (snd (create_login p lg None s)) = drawn s + 16
     \<and> update_login p lg [] s = (Inl (ValidationError ''Password cannot be empty''), s)"
proof -
  note sp = create_login_supplied [OF assms, of p "[]" s]
  have a: "\<forall>m. fst (create_login p lg (Some []) s) \<noteq> Inl (ValidationError m)"
    using create_login_not_validation [OF assms, of p "Some []" s] by blast
  have b: "drawn (snd (create_login p lg (Some []) s)) = drawn s"
    unfolding sp(1) by (rule put_parameter_trace(2))
  have c: "calls (snd (create_login p lg (Some []) s)) = calls s @ [PutParameter (p @ lg) False]"
    unfolding sp(1) by (rule put_parameter_trace(1))
  have d: "snd (create_login p lg (Some []) s)
         = snd (put_parameter (p @ lg) [] ''SecureString'' False (''Password for login: '' @ lg)
                  [(''Type'', ''Password''), (''Login'', lg)] s)"
    by (rule sp(1))
  have e: "\<forall>y. fst (create_login p lg (Some []) s) = Inr y \<longleftrightarrow>
            (y = [] \<and> fst (put_parameter (p @ lg) [] ''SecureString'' False
                             (''Password for login: '' @ lg)
                             [(''Type'', ''Password''), (''Login'', lg)] s) = Inr ())"
    using sp(2) by blast
  have f: "\<forall>code text fs. pending s = Some (ClientError code text) # fs
            \<and> code \<noteq> ''ParameterAlreadyExists'' \<longrightarrow>
            fst (create_login p lg (Some []) s)
              = Inl (AWSError (''Failed to create login: '' @ text))
            \<and> parameters (snd (create_login p lg (Some []) s)) = parameters s"
    using create_login_refused [OF assms, of s _ _ _ p "[]"] by blast
  have g: "drawn (snd (create_login p lg None s)) = drawn s + 16"
    using assms by (rule create_login_generates)
  have h: "update_login p lg [] s = (Inl (ValidationError ''Password cannot be empty''), s)"
    using assms by (simp add: update_login_def)
  from a b c d e f g h show ?thesis by (intro conjI)
qed

theorem create_passes_empty_password_witness:
  "calls (snd (create_login ''/passwords/'' ''bob'' (Some []) world_refusing))
     = [PutParameter ''/passwords/bob'' False]
   \<and> drawn (snd (create_login ''/passwords/'' ''bob'' (Some []) world_refusing)) = 0
   \<and> parameters (snd (create_login ''/passwords/'' ''bob'' (Some []) world_refusing)) = []
   \<and> fst (update_login ''/passwords/'' ''bob'' [] world_refusing)
       = Inl (ValidationError ''Password cannot be empty'')
   \<and> calls (snd (update_login ''/passwords/'' ''bob'' [] world_refusing)) = []"
proof -
  have h1: "''bob'' \<noteq> []" by simp
  note t = create_passes_empty_password [OF h1, of "''/passwords/''" world_refusing]
  have w: "calls world_refusing = []" "drawn world_refusing = 0" "parameters world_refusing = []"
    by (simp_all add: world_refusing_def world0_def)
  have pe: "pending world_refusing = Some (ClientError ''ValidationException''
     ''An error occurred (ValidationException) when calling the PutParameter operation: Member must have length greater than or equal to 1'') # []
     \<and> ''ValidationException'' \<noteq> ''ParameterAlreadyExists''"
    by (simp add: world_refusing_def world0_def)
  have a: "calls (snd (create_login ''/passwords/'' ''bob'' (Some []) world_refusing))
     = calls world_refusing @ [PutParameter (''/passwords/'' @ ''bob'') False]"
    using t by (elim conjE)
  have b: "drawn (snd (create_login ''/passwords/'' ''bob'' (Some []) world_refusing))
     = drawn world_refusing"
    using t by (elim conjE)
  have "\<forall>code text fs. pending world_refusing = Some (ClientError code text) # fs
            \<and> code \<noteq> ''ParameterAlreadyExists'' \<longrightarrow>
            fst (create_login ''/passwords/'' ''bob'' (Some []) world_refusing)
              = Inl (AWSError (''Failed to create login: '' @ text))
            \<and> parameters (snd (create_login ''/passwords/'' ''bob'' (Some []) world_refusing))
              = parameters world_refusing"
    using t by (elim conjE)
  with pe have c: "parameters (snd (create_login ''/passwords/'' ''bob'' (Some []) world_refusing))
              = parameters world_refusing"
    by blast
  have d: "update_login ''/passwords/'' ''bob'' [] world_refusing
       = (Inl (ValidationError ''Password cannot be empty''), world_refusing)"
    using t by (elim conjE)
  from a b c d show ?thesis by (simp add: w)
qed

section \<open>Update\<close>

lemma update_login_healthy:
  assumes "lg \<noteq> []" and "pw \<noteq> []" and "pending s = []"
  shows "update_login p lg pw s =
    (Inr (),
     (sent (AddTagsToResource (p @ lg)) (sent (PutParameter (p @ lg) True) s))
       \<lparr>parameters := AList.update (p @ lg)
          ((case map_of (parameters s) (p @ lg) of
              None \<Rightarrow> \<lparr>Value = pw, Type = ''SecureString'',
                        Description = ''Password for login: '' @ lg, Tags = [],
                        Version = 1, LastModifiedDate = Suc (clock s)\<rparr>
            | Some old \<Rightarrow> old\<lparr>Value := pw, Type := ''SecureString'',
                        Description := ''Password for login: '' @ lg,
                        Version := Suc (Version old), LastModifiedDate := Suc (clock s)\<rparr>)
           \<lparr>Tags := AList.update ''Login'' lg (AList.update ''Type'' ''Password''
              (case map_of (parameters s) (p @ lg) of None \<Rightarrow> [] | Some old \<Rightarrow> Tags old))\<rparr>)
          (parameters s)\<rparr>)"
  using assms
  by (cases "map_of (parameters s) (p @ lg)")
     (simp_all add: update_login_def put_parameter_healthy add_tags_healthy update_conv'
        sent_def)

lemma update_login_never_not_found:
  "fst (update_login p lg pw s) \<noteq> Inl (LoginNotFoundError m)"
  by (simp add: update_login_def split: prod.splits sum.splits exn.splits)


lemma update_login_effect:
  assumes "lg \<noteq> []" and "pw \<noteq> []" and "pending s = []"
  shows "fst (update_login p lg pw s) = Inr ()"
    and "calls (snd (update_login p lg pw s))
           = calls s @ [PutParameter (p @ lg) True, AddTagsToResource (p @ lg)]"
    and "\<exists>r. map_of (parameters (snd (update_login p lg pw s))) (p @ lg) = Some r
           \<and> Value r = pw \<and> map_of (Tags r) ''Type'' = Some ''Password''
           \<and> map_of (Tags r) ''Login'' = Some lg"
    and "k \<noteq> p @ lg \<Longrightarrow>
           map_of (parameters (snd (update_login p lg pw s))) k = map_of (parameters s) k"
    and "pending (snd (update_login p lg pw s)) = []"
    and "drawn (snd (update_login p lg pw s)) = drawn s"
  unfolding update_login_healthy [OF assms]
  by (cases "map_of (parameters s) (p @ lg)"; simp add: update_conv' assms)+

text \<open>
  C8: update raises \<open>Validation\<close> when the login or the password is empty, and then
  leaves the world untouched. It never raises \<open>NotFound\<close>, in any world. For every pair
  of non-empty arguments, and a store that serves the requests, it succeeds with exactly
  two requests and no read before them: the put with \<open>Overwrite\<close>, then the tagging.
  Afterwards the store holds a record under the name, whether or not it did before, whose
  value is the password and whose tags include \<open>Type=Password\<close> and \<open>Login=<name>\<close>; a
  get returns the password; the records under all other names are as before.
\<close>

theorem update_login_overwrites:
  "(lg = [] \<or> pw = [] \<longrightarrow> (\<exists>m. update_login p lg pw s = (Inl (ValidationError m), s)))
   \<and> (\<forall>m. fst (update_login p lg pw s) \<noteq> Inl (LoginNotFoundError m))
   \<and> (lg \<noteq> [] \<and> pw \<noteq> [] \<and> pending s = [] \<longrightarrow>
        fst (update_login p lg pw s) = Inr ()
      \<and> calls (snd (update_login p lg pw s))
           = calls s @ [PutParameter (p @ lg) True, AddTagsToResource (p @ lg)]
      \<and> (\<exists>r. map_of (parameters (snd (update_login p lg pw s))) (p @ lg) = Some r
           \<and> Value r = pw \<and> map_of (Tags r) ''Type'' = Some ''Password''
           \<and> map_of (Tags r) ''Login'' = Some lg)
      \<and> fst (get_password p lg (snd (update_login p lg pw s))) = Inr pw
      \<and> (\<forall>k. k \<noteq> p @ lg \<longrightarrow>
           map_of (parameters (snd (update_login p lg pw s))) k = map_of (parameters s) k))"
proof -
  have a: "lg = [] \<or> pw = [] \<longrightarrow> (\<exists>m. update_login p lg pw s = (Inl (ValidationError m), s))"
    by (simp add: update_login_def)
  have b: "\<forall>m. fst (update_login p lg pw s) \<noteq> Inl (LoginNotFoundError m)"
    by (simp add: update_login_never_not_found)
  have c: "lg \<noteq> [] \<and> pw \<noteq> [] \<and> pending s = [] \<longrightarrow>
        fst (update_login p lg pw s) = Inr ()
      \<and> calls (snd (update_login p lg pw s))
           = calls s @ [PutParameter (p @ lg) True, AddTagsToResource (p @ lg)]
      \<and> (\<exists>r. map_of (parameters (snd (update_login p lg pw s))) (p @ lg) = Some r
           \<and> Value r = pw \<and> map_of (Tags r) ''Type'' = Some ''Password''
           \<and> map_of (Tags r) ''Login'' = Some lg)
      \<and> fst (get_password p lg (snd (update_login p lg pw s))) = Inr pw
      \<and> (\<forall>k. k \<noteq> p @ lg \<longrightarrow>
           map_of (parameters (snd (update_login p lg pw s))) k = map_of (parameters s) k)"
  proof
    assume h: "lg \<noteq> [] \<and> pw \<noteq> [] \<and> pending s = []"
    then have h1: "lg \<noteq> []" and h2: "pw \<noteq> []" and h3: "pending s = []" by simp_all
    note e = update_login_effect [OF h1 h2 h3, where p = p]
    from e(3) obtain r where r: "map_of (parameters (snd (update_login p lg pw s))) (p @ lg) = Some r"
      and v: "Value r = pw" by blast
    have g: "fst (get_password p lg (snd (update_login p lg pw s))) = Inr pw"
      by (simp add: get_password_healthy [OF h1 e(5)] r v)
    have o: "\<forall>k. k \<noteq> p @ lg \<longrightarrow>
           map_of (parameters (snd (update_login p lg pw s))) k = map_of (parameters s) k"
      using e(4) by blast
    from e(1) e(2) e(3) g o show "fst (update_login p lg pw s) = Inr ()
      \<and> calls (snd (update_login p lg pw s))
           = calls s @ [PutParameter (p @ lg) True, AddTagsToResource (p @ lg)]
      \<and> (\<exists>r. map_of (parameters (snd (update_login p lg pw s))) (p @ lg) = Some r
           \<and> Value r = pw \<and> map_of (Tags r) ''Type'' = Some ''Password''
           \<and> map_of (Tags r) ''Login'' = Some lg)
      \<and> fst (get_password p lg (snd (update_login p lg pw s))) = Inr pw
      \<and> (\<forall>k. k \<noteq> p @ lg \<longrightarrow>
           map_of (parameters (snd (update_login p lg pw s))) k = map_of (parameters s) k)"
      by (intro conjI)
  qed
  from a b c show ?thesis by (intro conjI)
qed

theorem update_login_overwrites_witness:
  "fst (update_login ''/passwords/'' ''bob'' ''NewPass1!'' world_alice) = Inr ()
   \<and> calls (snd (update_login ''/passwords/'' ''bob'' ''NewPass1!'' world_alice))
       = [PutParameter ''/passwords/alice'' False, PutParameter ''/passwords/bob'' True,
          AddTagsToResource ''/passwords/bob'']
   \<and> fst (get_password ''/passwords/'' ''bob''
         (snd (update_login ''/passwords/'' ''bob'' ''NewPass1!'' world_alice))) = Inr ''NewPass1!''"
proof -
  have h: "''bob'' \<noteq> [] \<and> ''NewPass1!'' \<noteq> [] \<and> pending world_alice = []"
    by (simp add: world_alice_def world0_def)
  have c: "calls world_alice = [PutParameter ''/passwords/alice'' False]"
    by (simp add: world_alice_def world0_def)
  from update_login_overwrites [of "''bob''" "''NewPass1!''" "''/passwords/''" world_alice] h
  have "fst (update_login ''/passwords/'' ''bob'' ''NewPass1!'' world_alice) = Inr ()
      \<and> calls (snd (update_login ''/passwords/'' ''bob'' ''NewPass1!'' world_alice))
           = calls world_alice @ [PutParameter (''/passwords/'' @ ''bob'') True,
                                  AddTagsToResource (''/passwords/'' @ ''bob'')]
      \<and> fst (get_password ''/passwords/'' ''bob''
         (snd (update_login ''/passwords/'' ''bob'' ''NewPass1!'' world_alice))) = Inr ''NewPass1!''"
    by blast
  then show ?thesis by (simp add: c)
qed

section \<open>Uniqueness of names\<close>

lemma put_parameter_distinct:
  "distinct (map fst (parameters s)) \<Longrightarrow>
     distinct (map fst (parameters (snd (put_parameter k v t ov d tg s))))"
  by (simp add: put_parameter_def request_def distinct_update split: list.splits option.splits)

lemma add_tags_distinct:
  "distinct (map fst (parameters s)) \<Longrightarrow>
     distinct (map fst (parameters (snd (add_tags_to_resource k tg s))))"
  by (simp add: add_tags_to_resource_def request_def distinct_update split: list.splits option.splits)

lemma delete_parameter_distinct:
  "distinct (map fst (parameters s)) \<Longrightarrow>
     distinct (map fst (parameters (snd (delete_parameter k s))))"
  by (simp add: delete_parameter_def request_def distinct_delete split: list.splits option.splits)

lemma describe_parameters_parameters [simp]:
  "parameters (snd (describe_parameters flt s)) = parameters s"
  by (simp add: describe_parameters_def request_def split: list.splits option.splits)

lemma fetch_pages_parameters [simp]:
  "parameters (snd (fetch_pages n rest s)) = parameters s"
proof (induction n rest s rule: fetch_pages.induct)
  case (1 n rest s)
  show ?case
  proof (cases "request DescribeParameters s")
    case (Pair f s')
    have ps: "parameters s' = parameters s"
      using request_parameters [of DescribeParameters s] Pair by simp
    show ?thesis
    proof (cases f)
      case (Some e)
      with Pair ps show ?thesis by (subst fetch_pages.simps) simp
    next
      case None
      show ?thesis
      proof (cases "length rest \<le> max 1 n")
        case True
        with Pair None ps show ?thesis by (subst fetch_pages.simps) simp
      next
        case False
        from "1.IH" [OF Pair [symmetric] None False]
        have "parameters (snd (fetch_pages n (drop (max 1 n) rest) s')) = parameters s'" .
        with Pair None False ps show ?thesis
          by (subst fetch_pages.simps) (auto split: prod.splits sum.splits)
      qed
    qed
  qed
qed


lemma paginate_result: "paginate flt s = (r, s') \<Longrightarrow> parameters s' = parameters s"
  using fetch_pages_parameters
    [of "page_size s" "filter (\<lambda>(name, p). matches flt name) (parameters s)" s]
  by (simp add: paginate_def)

lemma describe_parameters_result:
  "describe_parameters flt s = (r, s') \<Longrightarrow> parameters s' = parameters s"
  using describe_parameters_parameters [of flt s] by simp

lemma get_password_result: "get_password p lg s = (r, s') \<Longrightarrow> parameters s' = parameters s"
  using get_password_parameters [of p lg s] by simp

lemma list_logins_parameters [simp]: "parameters (snd (list_logins p s)) = parameters s"
  by (auto simp add: list_logins_def split: prod.splits sum.splits exn.splits
      dest: paginate_result)

lemma get_login_info_parameters [simp]: "parameters (snd (get_login_info p lg s)) = parameters s"
  by (auto simp add: get_login_info_def split: prod.splits sum.splits exn.splits list.splits
      dest: describe_parameters_result)

lemma login_exists_parameters [simp]: "parameters (snd (login_exists p lg s)) = parameters s"
  by (auto simp add: login_exists_def split: prod.splits sum.splits error.splits
      dest: get_password_result)

lemma create_login_distinct:
  assumes "distinct (map fst (parameters s))"
  shows "distinct (map fst (parameters (snd (create_login p lg pw s))))"
proof (cases "lg = []")
  case True
  with assms show ?thesis by (simp add: create_login_def)
next
  case False
  obtain x s1 where g: "(case pw of None \<Rightarrow> generate_password None s | Some q \<Rightarrow> (q, s)) = (x, s1)"
    by (cases "case pw of None \<Rightarrow> generate_password None s | Some q \<Rightarrow> (q, s)")
  then have "parameters s1 = parameters s"
    by (cases pw) (auto dest: generate_password_result)
  with assms have "distinct (map fst (parameters (snd (put_parameter (p @ lg) x ''SecureString'' False
                     (''Password for login: '' @ lg)
                     [(''Type'', ''Password''), (''Login'', lg)] s1))))"
    by (simp add: put_parameter_distinct)
  with False g show ?thesis
    by (auto simp add: create_login_def split: prod.splits sum.splits exn.splits)
qed

lemma update_login_distinct:
  assumes "distinct (map fst (parameters s))"
  shows "distinct (map fst (parameters (snd (update_login p lg pw s))))"
proof (cases "lg = [] \<or> pw = []")
  case True
  with assms show ?thesis by (auto simp add: update_login_def)
next
  case False
  let ?put = "put_parameter (p @ lg) pw ''SecureString'' True (''Password for login: '' @ lg) [] s"
  have d1: "distinct (map fst (parameters (snd ?put)))"
    using assms by (rule put_parameter_distinct)
  then have d2: "distinct (map fst (parameters (snd (add_tags_to_resource (p @ lg)
                     [(''Type'', ''Password''), (''Login'', lg)] (snd ?put)))))"
    by (rule add_tags_distinct)
  from False d1 d2 show ?thesis
    by (auto simp add: update_login_def split: prod.splits sum.splits exn.splits)
qed

lemma delete_login_distinct:
  assumes "distinct (map fst (parameters s))"
  shows "distinct (map fst (parameters (snd (delete_login p lg s))))"
proof -
  have "distinct (map fst (parameters (snd (delete_parameter (p @ lg) s))))"
    using assms by (rule delete_parameter_distinct)
  with assms show ?thesis
    by (auto simp add: delete_login_def split: prod.splits sum.splits exn.splits)
qed

lemma rotate_password_distinct:
  assumes "distinct (map fst (parameters s))"
  shows "distinct (map fst (parameters (snd (rotate_password p lg len s))))"
proof (cases "lg = []")
  case True
  with assms show ?thesis by (simp add: rotate_password_def)
next
  case False
  obtain r s1 where g: "get_password p lg s = (r, s1)" by (cases "get_password p lg s")
  then have p1: "parameters s1 = parameters s"
    using get_password_parameters [of p lg s] by simp
  show ?thesis
  proof (cases r)
    case (Inl e)
    with False g p1 assms show ?thesis by (simp add: rotate_password_def)
  next
    case (Inr old)
    obtain new s2 where n: "generate_password (Some (case len of None \<Rightarrow> 16 | Some l \<Rightarrow> l)) s1 = (new, s2)"
      by (cases "generate_password (Some (case len of None \<Rightarrow> 16 | Some l \<Rightarrow> l)) s1")
    then have "parameters s2 = parameters s1" by (auto dest: generate_password_result)
    with p1 assms have "distinct (map fst (parameters s2))" by simp
    then have "distinct (map fst (parameters (snd (update_login p lg new s2))))"
      by (rule update_login_distinct)
    with False g Inr n show ?thesis
      by (auto simp add: rotate_password_def split: prod.splits sum.splits)
  qed
qed

lemma run_distinct:
  "distinct (map fst (parameters s)) \<Longrightarrow> distinct (map fst (parameters (run p x s)))"
  by (cases x)
     (simp_all add: create_login_distinct update_login_distinct delete_login_distinct
        rotate_password_distinct)

lemma run_all_distinct:
  "distinct (map fst (parameters s)) \<Longrightarrow> distinct (map fst (parameters (run_all p xs s)))"
  by (induction xs arbitrary: s) (simp_all add: run_distinct)

lemma distinct_keys_at_most_one:
  "distinct (map fst ps) \<Longrightarrow> length (filter (\<lambda>x. fst x = key) ps) \<le> 1"
proof (induction ps)
  case Nil
  then show ?case by simp
next
  case (Cons a ps)
  show ?case
  proof (cases "fst a = key")
    case True
    with Cons.prems have "key \<notin> fst ` set ps" by simp
    then have "\<forall>x \<in> set ps. fst x \<noteq> key"
      by (auto simp add: image_iff)
    then have "filter (\<lambda>x. fst x = key) ps = []"
      by (simp add: filter_empty_conv)
    with True show ?thesis by simp
  next
    case False
    with Cons show ?thesis by simp
  qed
qed

lemma create_login_held_fails:
  assumes "map_of (parameters s) (p @ lg) = Some r"
  shows "fst (create_login p lg pw s) \<noteq> Inr x"
proof (cases "lg = []")
  case True
  then show ?thesis by (simp add: create_login_def)
next
  case False
  obtain y s1 where g: "(case pw of None \<Rightarrow> generate_password None s | Some q \<Rightarrow> (q, s)) = (y, s1)"
    by (cases "case pw of None \<Rightarrow> generate_password None s | Some q \<Rightarrow> (q, s)")
  then have "parameters s1 = parameters s"
    by (cases pw) (auto dest: generate_password_result)
  with assms have "\<forall>u. fst (put_parameter (p @ lg) y ''SecureString'' False
                     (''Password for login: '' @ lg)
                     [(''Type'', ''Password''), (''Login'', lg)] s1) \<noteq> Inr u"
    by (simp add: put_parameter_def request_def split: list.splits option.splits)
  with False g show ?thesis
    by (auto simp add: create_login_def split: prod.splits sum.splits exn.splits)
qed


text \<open>
  C6: when the store holds the name, create, whatever its password argument, never
  succeeds and leaves every record of the store as it was, in any world; when the store
  serves the request (and the name is not empty) the failure is \<open>AlreadyExists\<close>.
  Consequently, starting from a store with at most one record per name, after any
  sequence of operations of a manager, whatever the network does, the store still holds
  at most one record per name, so at most one per login name under the manager's prefix.
\<close>

theorem create_existing_rejected:
  "(map_of (parameters s) (p @ lg) = Some r \<longrightarrow>
       parameters (snd (create_login p lg pw s)) = parameters s
     \<and> (\<forall>x. fst (create_login p lg pw s) \<noteq> Inr x)
     \<and> (lg \<noteq> [] \<and> pending s = [] \<longrightarrow>
          fst (create_login p lg pw s) = Inl (LoginAlreadyExistsError
             (''Login '' @ quote lg @ '' already exists. Use update to modify existing login.''))))
   \<and> (distinct (map fst (parameters s)) \<longrightarrow>
       distinct (map fst (parameters (run_all p ops s)))
     \<and> (\<forall>n. length (filter (\<lambda>x. fst x = p @ n) (parameters (run_all p ops s))) \<le> 1))"
proof -
  have a: "map_of (parameters s) (p @ lg) = Some r \<longrightarrow>
       parameters (snd (create_login p lg pw s)) = parameters s
     \<and> (\<forall>x. fst (create_login p lg pw s) \<noteq> Inr x)
     \<and> (lg \<noteq> [] \<and> pending s = [] \<longrightarrow>
          fst (create_login p lg pw s) = Inl (LoginAlreadyExistsError
             (''Login '' @ quote lg @ '' already exists. Use update to modify existing login.'')))"
    using create_login_held_parameters [of s p lg r pw] create_login_held_fails [of s p lg r pw]
      create_login_held [of lg s p r pw]
    by blast
  have b: "distinct (map fst (parameters s)) \<longrightarrow>
       distinct (map fst (parameters (run_all p ops s)))
     \<and> (\<forall>n. length (filter (\<lambda>x. fst x = p @ n) (parameters (run_all p ops s))) \<le> 1)"
    using run_all_distinct [of s p ops] distinct_keys_at_most_one [of "parameters (run_all p ops s)"]
    by blast
  from a b show ?thesis by (rule conjI)
qed

theorem create_existing_rejected_witness:
  "parameters (snd (create_login ''/passwords/'' ''alice'' (Some ''other'') world_alice))
     = parameters world_alice
   \<and> fst (create_login ''/passwords/'' ''alice'' (Some ''other'') world_alice)
       = Inl (LoginAlreadyExistsError
           (''Login '' @ quote ''alice'' @ '' already exists. Use update to modify existing login.''))
   \<and> distinct (map fst (parameters (run_all ''/passwords/''
         [Create ''alice'' None, Create ''alice'' (Some ''pw''), Update ''alice'' ''x''] world_alice)))"
proof -
  have h1: "map_of (parameters world_alice) (''/passwords/'' @ ''alice'') = Some alice_record"
    and h2: "''alice'' \<noteq> [] \<and> pending world_alice = []"
    and h3: "distinct (map fst (parameters world_alice))"
    by (simp_all add: world_alice_def world0_def)
  from create_existing_rejected [of world_alice "''/passwords/''" "''alice''" alice_record
      "Some ''other''" "[Create ''alice'' None, Create ''alice'' (Some ''pw''), Update ''alice'' ''x'']"]
    h1 h2 h3
  show ?thesis by blast
qed

section \<open>Rotate\<close>

lemma generate_password_sent:
  "fst (generate_password len (sent c s)) = fst (generate_password len s)"
  by (simp add: generate_password_choices choices_fst)

lemma generate_password_drawn:
  "fst (generate_password len s)
     = map (\<lambda>i. alphabet ! (entropy s i mod 70))
         [drawn s ..< drawn s + nat (max (case len of None \<Rightarrow> 16 | Some l \<Rightarrow> l) 8)]"
  by (simp add: generate_password_choices choices_fst alphabet_length)

lemma rotate_password_absent:
  assumes "lg \<noteq> []" and "pending s = []" and "map_of (parameters s) (p @ lg) = None"
  shows "rotate_password p lg len s =
           (Inl (LoginNotFoundError (''Login '' @ quote lg @ '' not found'')),
            sent (GetParameter (p @ lg)) s)"
  using assms by (simp add: rotate_password_def get_password_healthy)

lemma rotate_password_held:
  assumes "lg \<noteq> []" and "pending s = []" and "map_of (parameters s) (p @ lg) = Some r"
  shows "rotate_password p lg len s =
           (Inr (fst (generate_password (Some (case len of None \<Rightarrow> 16 | Some l \<Rightarrow> l)) s)),
            snd (update_login p lg
                  (fst (generate_password (Some (case len of None \<Rightarrow> 16 | Some l \<Rightarrow> l)) s))
                  (snd (generate_password (Some (case len of None \<Rightarrow> 16 | Some l \<Rightarrow> l))
                         (sent (GetParameter (p @ lg)) s)))))"
proof -
  let ?L = "Some (case len of None \<Rightarrow> 16 | Some l \<Rightarrow> l)"
  let ?s1 = "sent (GetParameter (p @ lg)) s"
  have g: "get_password p lg s = (Inr (Value r), ?s1)"
    using assms by (simp add: get_password_healthy)
  obtain new s2 where n: "generate_password ?L ?s1 = (new, s2)"
    by (cases "generate_password ?L ?s1")
  have new: "new = fst (generate_password ?L s)"
    using n generate_password_sent [of ?L "GetParameter (p @ lg)" s] by simp
  have s2: "s2 = snd (generate_password ?L ?s1)"
    using n by simp
  have ne: "new \<noteq> []"
    unfolding new by (rule generate_password_nonempty)
  have pe: "pending s2 = []"
    unfolding s2 using assms(2) by simp
  have "fst (update_login p lg new s2) = Inr ()"
    using update_login_effect(1) [OF assms(1) ne pe] .
  then obtain s3 where u: "update_login p lg new s2 = (Inr (), s3)"
    by (cases "update_login p lg new s2") simp
  have "rotate_password p lg len s = (Inr new, s3)"
    unfolding rotate_password_def using assms(1) by (simp add: g n u)
  moreover have "s3 = snd (update_login p lg new s2)"
    using u by simp
  ultimately show ?thesis
    unfolding new [symmetric] s2 [symmetric] by simp
qed


lemma rotate_password_effect:
  assumes "lg \<noteq> []" and "pending s = []" and "map_of (parameters s) (p @ lg) = Some r"
  shows "fst (rotate_password p lg len s)
           = Inr (fst (generate_password (Some (case len of None \<Rightarrow> 16 | Some l \<Rightarrow> l)) s))"
    and "calls (snd (rotate_password p lg len s))
           = calls s @ [GetParameter (p @ lg), PutParameter (p @ lg) True, AddTagsToResource (p @ lg)]"
    and "fst (get_password p lg (snd (rotate_password p lg len s)))
           = Inr (fst (generate_password (Some (case len of None \<Rightarrow> 16 | Some l \<Rightarrow> l)) s))"
proof -
  let ?L = "Some (case len of None \<Rightarrow> 16 | Some l \<Rightarrow> l)"
  let ?new = "fst (generate_password ?L s)"
  let ?s2 = "snd (generate_password ?L (sent (GetParameter (p @ lg)) s))"
  note h = rotate_password_held [OF assms, of len]
  have ne: "?new \<noteq> []" by (rule generate_password_nonempty)
  have pe: "pending ?s2 = []" using assms(2) by simp
  note e = update_login_effect [OF assms(1) ne pe, where p = p]
  show "fst (rotate_password p lg len s) = Inr ?new"
    unfolding h by simp
  show "calls (snd (rotate_password p lg len s))
           = calls s @ [GetParameter (p @ lg), PutParameter (p @ lg) True, AddTagsToResource (p @ lg)]"
    unfolding h using e(2) by simp
  from e(3) obtain r' where r': "map_of (parameters (snd (update_login p lg ?new ?s2))) (p @ lg) = Some r'"
    and v: "Value r' = ?new" by blast
  show "fst (get_password p lg (snd (rotate_password p lg len s))) = Inr ?new"
    unfolding h by (simp add: get_password_healthy [OF assms(1) e(5)] r' v)
qed

text \<open>
  C7, amended: for every non-empty name and a store that serves the requests, rotate
  first sends a get. If the store does not hold the name it raises \<open>NotFound\<close>, having
  sent nothing else, changed no record and drawn no random value. Otherwise it generates
  a new password of length \<open>max length 8\<close> (16 by default, 24 for length 24) from the
  next values of the random source alone, writes it with update (the overwriting put,
  then the tagging) and returns it, and a get that follows returns it. The new password
  differs from the previous one whenever their lengths differ; nothing compares the two.
\<close>

theorem rotate_password_contract:
  assumes "lg \<noteq> []" and "pending s = []"
  shows "(map_of (parameters s) (p @ lg) = None \<longrightarrow>
            fst (rotate_password p lg len s)
              = Inl (LoginNotFoundError (''Login '' @ quote lg @ '' not found''))
          \<and> parameters (snd (rotate_password p lg len s)) = parameters s
          \<and> drawn (snd (rotate_password p lg len s)) = drawn s
          \<and> calls (snd (rotate_password p lg len s)) = calls s @ [GetParameter (p @ lg)])
     \<and> (\<forall>r. map_of (parameters s) (p @ lg) = Some r \<longrightarrow>
          (\<exists>new. fst (rotate_password p lg len s) = Inr new
             \<and> new = map (\<lambda>i. alphabet ! (entropy s i mod 70))
                      [drawn s ..< drawn s + nat (max (case len of None \<Rightarrow> 16 | Some l \<Rightarrow> l) 8)]
             \<and> length new = nat (max (case len of None \<Rightarrow> 16 | Some l \<Rightarrow> l) 8)
             \<and> (len = None \<longrightarrow> length new = 16)
             \<and> (len = Some 24 \<longrightarrow> length new = 24)
             \<and> calls (snd (rotate_password p lg len s))
                  = calls s @ [GetParameter (p @ lg), PutParameter (p @ lg) True,
                               AddTagsToResource (p @ lg)]
             \<and> fst (get_password p lg (snd (rotate_password p lg len s))) = Inr new
             \<and> (length (Value r) \<noteq> length new \<longrightarrow> new \<noteq> Value r)))"
proof -
  let ?L = "Some (case len of None \<Rightarrow> 16 | Some l \<Rightarrow> l)"
  let ?new = "fst (generate_password ?L s)"
  have a: "map_of (parameters s) (p @ lg) = None \<longrightarrow>
            fst (rotate_password p lg len s)
              = Inl (LoginNotFoundError (''Login '' @ quote lg @ '' not found''))
          \<and> parameters (snd (rotate_password p lg len s)) = parameters s
          \<and> drawn (snd (rotate_password p lg len s)) = drawn s
          \<and> calls (snd (rotate_password p lg len s)) = calls s @ [GetParameter (p @ lg)]"
    by (simp add: rotate_password_absent [OF assms])
  have b: "\<forall>r. map_of (parameters s) (p @ lg) = Some r \<longrightarrow>
          (\<exists>new. fst (rotate_password p lg len s) = Inr new
             \<and> new = map (\<lambda>i. alphabet ! (entropy s i mod 70))
                      [drawn s ..< drawn s + nat (max (case len of None \<Rightarrow> 16 | Some l \<Rightarrow> l) 8)]
             \<and> length new = nat (max (case len of None \<Rightarrow> 16 | Some l \<Rightarrow> l) 8)
             \<and> (len = None \<longrightarrow> length new = 16)
             \<and> (len = Some 24 \<longrightarrow> length new = 24)
             \<and> calls (snd (rotate_password p lg len s))
                  = calls s @ [GetParameter (p @ lg), PutParameter (p @ lg) True,
                               AddTagsToResource (p @ lg)]
             \<and> fst (get_password p lg (snd (rotate_password p lg len s))) = Inr new
             \<and> (length (Value r) \<noteq> length new \<longrightarrow> new \<noteq> Value r))"
  proof (intro allI impI)
    fix r assume held: "map_of (parameters s) (p @ lg) = Some r"
    note e = rotate_password_effect [OF assms held, of len]
    have c1: "?new = map (\<lambda>i. alphabet ! (entropy s i mod 70))
                      [drawn s ..< drawn s + nat (max (case len of None \<Rightarrow> 16 | Some l \<Rightarrow> l) 8)]"
      using generate_password_drawn [of ?L s] by simp
    have c2: "length ?new = nat (max (case len of None \<Rightarrow> 16 | Some l \<Rightarrow> l) 8)"
      using generate_password_length [of ?L s] by simp
    have c3: "len = None \<longrightarrow> length ?new = 16" using c2 by auto
    have c4: "len = Some 24 \<longrightarrow> length ?new = 24" using c2 by auto
    have c5: "length (Value r) \<noteq> length ?new \<longrightarrow> ?new \<noteq> Value r" by auto
    show "\<exists>new. fst (rotate_password p lg len s) = Inr new
             \<and> new = map (\<lambda>i. alphabet ! (entropy s i mod 70))
                      [drawn s ..< drawn s + nat (max (case len of None \<Rightarrow> 16 | Some l \<Rightarrow> l) 8)]
             \<and> length new = nat (max (case len of None \<Rightarrow> 16 | Some l \<Rightarrow> l) 8)
             \<and> (len = None \<longrightarrow> length new = 16)
             \<and> (len = Some 24 \<longrightarrow> length new = 24)
             \<and> calls (snd (rotate_password p lg len s))
                  = calls s @ [GetParameter (p @ lg), PutParameter (p @ lg) True,
                               AddTagsToResource (p @ lg)]
             \<and> fst (get_password p lg (snd (rotate_password p lg len s))) = Inr new
             \<and> (length (Value r) \<noteq> length new \<longrightarrow> new \<noteq> Value r)"
      by (rule exI [of _ ?new]) (use e(1) c1 c2 c3 c4 e(2) e(3) c5 in \<open>intro conjI\<close>)
  qed
  from a b show ?thesis by (rule conjI)
qed


lemma alphabet_nth_3: "alphabet ! 3 = CHR ''d''"
  by (simp add: alphabet_def ascii_letters_def)

text \<open>
  C7, as stated, says that the password returned for length 24 differs from the one held
  before. The new password is what the random source yields, whatever is stored: when the
  stored password is the 24 characters that the source yields next, rotate returns it again.
\<close>

theorem rotate_password_same_counterexample:
  "fst (get_password ''/passwords/'' ''alice'' world_stale) = Inr (replicate 24 CHR ''d'')
   \<and> fst (rotate_password ''/passwords/'' ''alice'' (Some 24) world_stale)
       = Inr (replicate 24 CHR ''d'')"
proof -
  have h1: "''alice'' \<noteq> []" by simp
  have h2: "pending world_stale = []"
    by (simp add: world_stale_def world_alice_def world0_def)
  have h3: "map_of (parameters world_stale) (''/passwords/'' @ ''alice'')
              = Some (alice_record\<lparr>Value := replicate 24 CHR ''d''\<rparr>)"
    by (simp add: world_stale_def world_alice_def world0_def)
  have e: "entropy world_stale = (\<lambda>i. 3)" and d: "drawn world_stale = 0"
    by (simp_all add: world_stale_def world_alice_def world0_def)
  have a: "fst (get_password ''/passwords/'' ''alice'' world_stale) = Inr (replicate 24 CHR ''d'')"
    using h3 by (simp add: get_password_healthy [OF h1 h2])
  have "fst (generate_password (Some 24) world_stale)
          = map (\<lambda>i. alphabet ! 3) [0 ..< 24]"
    using generate_password_drawn [of "Some 24" world_stale] by (simp add: e d)
  also have "\<dots> = replicate 24 CHR ''d''"
    by (simp add: map_replicate_const alphabet_nth_3)
  finally have g: "fst (generate_password (Some 24) world_stale) = replicate 24 CHR ''d''" .
  have b: "fst (rotate_password ''/passwords/'' ''alice'' (Some 24) world_stale)
       = Inr (replicate 24 CHR ''d'')"
    using rotate_password_effect(1) [OF h1 h2 h3, of "Some 24"] by (simp add: g)
  from a b show ?thesis by (rule conjI)
qed

theorem rotate_password_contract_witness:
  "fst (rotate_password ''/passwords/'' ''bob'' None world_alice)
     = Inl (LoginNotFoundError (''Login '' @ quote ''bob'' @ '' not found''))
   \<and> map_sum (\<lambda>e. e) length (fst (rotate_password ''/passwords/'' ''alice'' (Some 24) world_alice))
       = Inr 24
   \<and> fst (rotate_password ''/passwords/'' ''alice'' (Some 24) world_alice) \<noteq> Inr ''secret''
   \<and> fst (get_password ''/passwords/'' ''alice''
           (snd (rotate_password ''/passwords/'' ''alice'' (Some 24) world_alice)))
       = fst (rotate_password ''/passwords/'' ''alice'' (Some 24) world_alice)"
proof -
  have h1: "''alice'' \<noteq> []" and k1: "''bob'' \<noteq> []" by simp_all
  have h2: "pending world_alice = []"
    by (simp add: world_alice_def world0_def)
  have h3: "map_of (parameters world_alice) (''/passwords/'' @ ''alice'') = Some alice_record"
    and k3: "map_of (parameters world_alice) (''/passwords/'' @ ''bob'') = None"
    by (simp_all add: world_alice_def world0_def)
  have v: "length (Value alice_record) = 6" "Value alice_record = ''secret''"
    by (simp_all add: alice_record_def)
  from rotate_password_contract [OF k1 h2, of "''/passwords/''" None] k3
  have a: "fst (rotate_password ''/passwords/'' ''bob'' None world_alice)
     = Inl (LoginNotFoundError (''Login '' @ quote ''bob'' @ '' not found''))"
    by blast
  from rotate_password_contract [OF h1 h2, of "''/passwords/''" "Some 24"] h3
  obtain new where n: "fst (rotate_password ''/passwords/'' ''alice'' (Some 24) world_alice) = Inr new"
    and l: "length new = 24"
    and g: "fst (get_password ''/passwords/'' ''alice''
           (snd (rotate_password ''/passwords/'' ''alice'' (Some 24) world_alice))) = Inr new"
    and df: "length (Value alice_record) \<noteq> length new \<longrightarrow> new \<noteq> Value alice_record"
    by blast
  from df l v have "new \<noteq> ''secret''" by simp
  with a n l g show ?thesis by simp
qed

section \<open>Listing\<close>

lemma page_loop_eq:
  "page_loop p page acc = acc @ map (\<lambda>x. drop (length p) (fst x)) page"
  by (induction page arbitrary: acc) simp_all

lemma pages_loop_eq:
  "pages_loop p pages acc = acc @ map (\<lambda>x. drop (length p) (fst x)) (concat pages)"
  by (induction pages arbitrary: acc) (simp_all add: page_loop_eq)

lemma fetch_pages_healthy:
  "pending s = [] \<Longrightarrow>
     (\<exists>pages. fst (fetch_pages n rest s) = Inr pages \<and> concat pages = rest
         \<and> (\<forall>page \<in> set pages. length page \<le> max 1 n))
     \<and> pending (snd (fetch_pages n rest s)) = []"
proof (induction n rest s rule: fetch_pages.induct)
  case (1 n rest s)
  let ?s' = "sent DescribeParameters s"
  have rq: "request DescribeParameters s = (None, ?s')"
    using "1.prems" by (rule request_healthy)
  show ?case
  proof (cases "length rest \<le> max 1 n")
    case True
    then have "fetch_pages n rest s = (Inr [rest], ?s')"
      by (subst fetch_pages.simps) (simp add: rq)
    with True "1.prems" show ?thesis by simp
  next
    case False
    have p': "pending ?s' = []" using "1.prems" by simp
    from "1.IH" [OF rq [symmetric] refl False p']
    obtain pages where f: "fst (fetch_pages n (drop (max 1 n) rest) ?s') = Inr pages"
      and c: "concat pages = drop (max 1 n) rest"
      and l: "\<forall>page \<in> set pages. length page \<le> max 1 n"
      and pe: "pending (snd (fetch_pages n (drop (max 1 n) rest) ?s')) = []"
      by blast
    obtain s'' where f': "fetch_pages n (drop (max 1 n) rest) ?s' = (Inr pages, s'')"
      using f by (cases "fetch_pages n (drop (max 1 n) rest) ?s'") simp
    have "fetch_pages n rest s = (Inr (take (max 1 n) rest # pages), s'')"
      using False f' by (subst fetch_pages.simps) (simp add: rq)
    moreover have "concat (take (max 1 n) rest # pages) = rest" by (simp add: c)
    moreover have "\<forall>page \<in> set (take (max 1 n) rest # pages). length page \<le> max 1 n"
      using l by simp
    moreover have "pending s'' = []" using pe f' by simp
    ultimately show ?thesis by simp
  qed
qed

lemma list_logins_healthy:
  assumes "pending s = []"
  shows "fst (list_logins p s)
           = Inr (sort (map (drop (length p))
                   (filter (\<lambda>k. take (length p) k = p) (map fst (parameters s)))))"
    and "pending (snd (list_logins p s)) = []"
proof -
  let ?rest = "filter (\<lambda>(name, r). matches (BeginsWith p) name) (parameters s)"
  from fetch_pages_healthy [OF assms, of "page_size s" ?rest]
  obtain pages where f: "fst (paginate (BeginsWith p) s) = Inr pages"
    and c: "concat pages = ?rest"
    and pe: "pending (snd (paginate (BeginsWith p) s)) = []"
    unfolding paginate_def by blast
  obtain s' where f': "paginate (BeginsWith p) s = (Inr pages, s')"
    using f by (cases "paginate (BeginsWith p) s") simp
  have "map (\<lambda>x. drop (length p) (fst x)) ?rest
          = map (drop (length p)) (filter (\<lambda>k. take (length p) k = p) (map fst (parameters s)))"
    by (induction "parameters s") (auto simp add: filter_map comp_def case_prod_beta)
  then show "fst (list_logins p s)
           = Inr (sort (map (drop (length p))
                   (filter (\<lambda>k. take (length p) k = p) (map fst (parameters s)))))"
    by (simp add: list_logins_def f' pages_loop_eq c)
  show "pending (snd (list_logins p s)) = []"
    using pe by (simp add: list_logins_def f')
qed


lemma request_pending: "pending s = [] \<Longrightarrow> pending (snd (request c s)) = []"
  by (simp add: request_healthy)

lemma get_password_pending: "pending s = [] \<Longrightarrow> pending (snd (get_password p lg s)) = []"
proof (cases "lg = []")
  case True
  then show "pending s = [] \<Longrightarrow> ?thesis" by (simp add: get_password_def)
next
  case False
  then show "pending s = [] \<Longrightarrow> ?thesis" by (simp add: get_password_healthy)
qed

lemma login_exists_pending: "pending s = [] \<Longrightarrow> pending (snd (login_exists p lg s)) = []"
proof (cases "lg = []")
  case True
  then show "pending s = [] \<Longrightarrow> ?thesis" by (simp add: login_exists_def)
next
  case False
  then show "pending s = [] \<Longrightarrow> ?thesis" by (simp add: login_exists_healthy)
qed

lemma get_login_info_pending: "pending s = [] \<Longrightarrow> pending (snd (get_login_info p lg s)) = []"
  by (simp add: get_login_info_def describe_parameters_def request_healthy split: list.splits)

lemma create_login_keys:
  assumes "pending s = []" and "lg \<noteq> []"
  shows "pending (snd (create_login p lg pw s)) = []"
    and "fst ` set (parameters (snd (create_login p lg pw s)))
           = insert (p @ lg) (fst ` set (parameters s))"
proof -
  have "pending (snd (create_login p lg pw s)) = []
      \<and> fst ` set (parameters (snd (create_login p lg pw s)))
           = insert (p @ lg) (fst ` set (parameters s))"
  proof (cases "map_of (parameters s) (p @ lg)")
    case None
    with assms show ?thesis
      by (cases pw) (simp_all add: create_login_new dom_update)
  next
    case (Some r)
    then have "p @ lg \<in> fst ` set (parameters s)"
      by (metis map_of_eq_None_iff option.distinct(1))
    moreover have "pending (snd (create_login p lg pw s)) = []"
      using assms Some
      by (cases pw) (simp_all add: create_login_def put_parameter_healthy case_prod_beta)
    ultimately show ?thesis
      using create_login_held_parameters [OF Some, of pw] by auto
  qed
  then show "pending (snd (create_login p lg pw s)) = []"
    and "fst ` set (parameters (snd (create_login p lg pw s)))
           = insert (p @ lg) (fst ` set (parameters s))"
    by simp_all
qed

lemma update_login_keys:
  assumes "pending s = []" and "lg \<noteq> []" and "pw \<noteq> []"
  shows "fst ` set (parameters (snd (update_login p lg pw s)))
           = insert (p @ lg) (fst ` set (parameters s))"
  unfolding update_login_healthy [OF assms(2) assms(3) assms(1)]
  by (simp add: dom_update)

lemma dom_delete_all: "fst ` set (AList.delete k al) = fst ` set al - {k}"
proof -
  have "fst ` set (AList.delete k al) = set (map fst (AList.delete k al))" by simp
  also have "\<dots> = set (removeAll k (map fst al))" by (simp only: delete_keys)
  also have "\<dots> = fst ` set al - {k}" by simp
  finally show ?thesis .
qed

lemma delete_login_keys:
  assumes "pending s = []" and "lg \<noteq> []"
  shows "pending (snd (delete_login p lg s)) = []"
    and "fst ` set (parameters (snd (delete_login p lg s)))
           = fst ` set (parameters s) - {p @ lg}"
proof -
  have "pending (snd (delete_login p lg s)) = []
     \<and> fst ` set (parameters (snd (delete_login p lg s))) = fst ` set (parameters s) - {p @ lg}"
  proof (cases "map_of (parameters s) (p @ lg)")
    case None
    then have "p @ lg \<notin> fst ` set (parameters s)"
      by (simp add: map_of_eq_None_iff)
    with None assms show ?thesis
      by (simp add: delete_login_def delete_parameter_healthy)
  next
    case (Some r)
    with assms show ?thesis
      by (simp add: delete_login_def delete_parameter_healthy dom_delete_all)
  qed
  then show "pending (snd (delete_login p lg s)) = []"
    and "fst ` set (parameters (snd (delete_login p lg s))) = fst ` set (parameters s) - {p @ lg}"
    by simp_all
qed

lemma rotate_password_keys:
  assumes "pending s = []"
  shows "pending (snd (rotate_password p lg len s)) = []"
    and "fst ` set (parameters (snd (rotate_password p lg len s))) = fst ` set (parameters s)"
proof -
  have "pending (snd (rotate_password p lg len s)) = []
     \<and> fst ` set (parameters (snd (rotate_password p lg len s))) = fst ` set (parameters s)"
  proof (cases "lg = []")
    case True
    with assms show ?thesis by (simp add: rotate_password_def)
  next
    case False
    show ?thesis
    proof (cases "map_of (parameters s) (p @ lg)")
      case None
      with assms False show ?thesis by (simp add: rotate_password_absent)
    next
      case (Some r)
      let ?L = "Some (case len of None \<Rightarrow> 16 | Some l \<Rightarrow> l)"
      let ?new = "fst (generate_password ?L s)"
      let ?s2 = "snd (generate_password ?L (sent (GetParameter (p @ lg)) s))"
      have ne: "?new \<noteq> []" by (rule generate_password_nonempty)
      have pe: "pending ?s2 = []" using assms by simp
      have k: "p @ lg \<in> fst ` set (parameters s)"
        using Some by (metis map_of_eq_None_iff option.distinct(1))
      have "fst ` set (parameters (snd (update_login p lg ?new ?s2)))
              = insert (p @ lg) (fst ` set (parameters ?s2))"
        using update_login_keys [OF pe False ne] .
      with k have "fst ` set (parameters (snd (update_login p lg ?new ?s2)))
              = fst ` set (parameters s)"
        by auto
      moreover have "pending (snd (update_login p lg ?new ?s2)) = []"
        using update_login_effect(5) [OF False ne pe] .
      ultimately show ?thesis
        unfolding rotate_password_held [OF False assms Some] by simp
    qed
  qed
  then show "pending (snd (rotate_password p lg len s)) = []"
    and "fst ` set (parameters (snd (rotate_password p lg len s))) = fst ` set (parameters s)"
    by simp_all
qed

lemma held_names_iff: "n \<in> held_names p s \<longleftrightarrow> p @ n \<in> fst ` set (parameters s)"
proof
  assume "n \<in> held_names p s"
  then obtain k where k: "k \<in> fst ` set (parameters s)" and t: "take (length p) k = p"
    and d: "n = drop (length p) k"
    by (auto simp add: held_names_def)
  have "p @ n = take (length p) k @ drop (length p) k" using t d by simp
  then have "p @ n = k" by simp
  with k show "p @ n \<in> fst ` set (parameters s)" by simp
next
  assume a: "p @ n \<in> fst ` set (parameters s)"
  then have "p @ n \<in> set (filter (\<lambda>k. take (length p) k = p) (map fst (parameters s)))"
    by simp
  then have "drop (length p) (p @ n)
      \<in> drop (length p) ` set (filter (\<lambda>k. take (length p) k = p) (map fst (parameters s)))"
    by (rule imageI)
  then show "n \<in> held_names p s"
    by (simp add: held_names_def)
qed

lemma held_names_keys:
  "fst ` set (parameters s') = fst ` set (parameters s) \<Longrightarrow> held_names p s' = held_names p s"
  by (auto simp add: held_names_iff)

lemma held_names_insert:
  "fst ` set (parameters s') = insert (p @ lg) (fst ` set (parameters s)) \<Longrightarrow>
     held_names p s' = insert lg (held_names p s)"
  by (auto simp add: held_names_iff)

lemma held_names_remove:
  "fst ` set (parameters s') = fst ` set (parameters s) - {p @ lg} \<Longrightarrow>
     held_names p s' = held_names p s - {lg}"
  by (auto simp add: held_names_iff)

lemma run_healthy:
  assumes "pending s = []"
  shows "pending (run p x s) = [] \<and> held_names p (run p x s) = names_after x (held_names p s)"
proof (cases x)
  case List
  have "held_names p (snd (list_logins p s)) = held_names p s"
    by (rule held_names_keys) simp
  with List assms show ?thesis
    by (simp add: list_logins_healthy(2))
next
  case (Create lg pw)
  show ?thesis
  proof (cases "lg = []")
    case True
    with Create assms show ?thesis by (simp add: create_login_def)
  next
    case False
    have "held_names p (snd (create_login p lg pw s)) = insert lg (held_names p s)"
      by (rule held_names_insert) (rule create_login_keys(2) [OF assms False])
    with Create False create_login_keys(1) [OF assms False, of p pw] show ?thesis
      by simp
  qed
next
  case (Update lg pw)
  show ?thesis
  proof (cases "lg = [] \<or> pw = []")
    case True
    with Update assms show ?thesis by (auto simp add: update_login_def)
  next
    case False
    then have ne: "lg \<noteq> []" "pw \<noteq> []" by simp_all
    have "held_names p (snd (update_login p lg pw s)) = insert lg (held_names p s)"
      by (rule held_names_insert) (rule update_login_keys [OF assms ne])
    with Update ne update_login_effect(5) [OF ne assms, of p] show ?thesis
      by simp
  qed
next
  case (Delete lg)
  show ?thesis
  proof (cases "lg = []")
    case True
    with Delete assms show ?thesis by (simp add: delete_login_def)
  next
    case False
    have "held_names p (snd (delete_login p lg s)) = held_names p s - {lg}"
      by (rule held_names_remove) (rule delete_login_keys(2) [OF assms False])
    with Delete False delete_login_keys(1) [OF assms False, of p] show ?thesis
      by simp
  qed
next
  case (Get lg)
  have "held_names p (snd (get_password p lg s)) = held_names p s"
    by (rule held_names_keys) simp
  with Get get_password_pending [OF assms, of p lg] show ?thesis by simp
next
  case (Rotate lg len)
  have "held_names p (snd (rotate_password p lg len s)) = held_names p s"
    by (rule held_names_keys) (rule rotate_password_keys(2) [OF assms])
  with Rotate rotate_password_keys(1) [OF assms, of p lg len] show ?thesis by simp
next
  case (Exists lg)
  have "held_names p (snd (login_exists p lg s)) = held_names p s"
    by (rule held_names_keys) simp
  with Exists login_exists_pending [OF assms, of p lg] show ?thesis by simp
next
  case (Info lg)
  have "held_names p (snd (get_login_info p lg s)) = held_names p s"
    by (rule held_names_keys) simp
  with Info get_login_info_pending [OF assms, of p lg] show ?thesis by simp
qed

lemma run_all_healthy:
  "pending s = [] \<Longrightarrow>
     pending (run_all p xs s) = []
     \<and> held_names p (run_all p xs s) = created_not_deleted xs (held_names p s)"
proof (induction xs arbitrary: s)
  case Nil
  then show ?case by simp
next
  case (Cons x xs)
  from run_healthy [OF Cons.prems, of p x]
  have h: "pending (run p x s) = []"
    and n: "held_names p (run p x s) = names_after x (held_names p s)"
    by simp_all
  from Cons.IH [OF h] n show ?case by simp
qed

lemma strip_prefix_distinct:
  assumes "distinct ks"
  shows "distinct (map (drop n) (filter (\<lambda>k. take n k = p) ks))"
proof -
  have "inj_on (drop n) {k. take n k = p}"
  proof (rule inj_onI)
    fix a b assume "a \<in> {k. take n k = p}" and "b \<in> {k. take n k = p}"
      and d: "drop n a = drop n b"
    then have "take n a = take n b" by simp
    with d have "take n a @ drop n a = take n b @ drop n b" by simp
    then show "a = b" by simp
  qed
  then have "inj_on (drop n) (set (filter (\<lambda>k. take n k = p) ks))"
    by (rule inj_on_subset) auto
  with assms show ?thesis by (simp add: distinct_map)
qed

lemma list_logins_names:
  assumes "pending s = []"
  shows "\<exists>names. fst (list_logins p s) = Inr names \<and> sorted names
           \<and> set names = held_names p s
           \<and> (distinct (map fst (parameters s)) \<longrightarrow> distinct names)"
proof -
  let ?names = "sort (map (drop (length p))
                   (filter (\<lambda>k. take (length p) k = p) (map fst (parameters s))))"
  have "fst (list_logins p s) = Inr ?names" by (rule list_logins_healthy(1) [OF assms])
  moreover have "sorted ?names" by simp
  moreover have "set ?names = held_names p s" by (simp add: held_names_def)
  moreover have "distinct (map fst (parameters s)) \<longrightarrow> distinct ?names"
    by (simp add: strip_prefix_distinct)
  ultimately show ?thesis by blast
qed

text \<open>
  C9: for every store state, when the store serves the requests, list returns the stored
  keys that begin with the prefix, each with the prefix stripped, in sorted
  (lexicographic) order, whatever the page size of the listing: a name is listed exactly
  when the store holds it under the prefix, once if the store holds each key once, and
  the list is empty when no name is held. No record is changed. After any sequence of
  operations the list is the sorted sequence of exactly the names that were held at the
  start or created since, and not deleted since; from an empty store, exactly the names
  created and not deleted, each once.
\<close>

theorem list_logins_reflects_names:
  assumes "pending s = []"
  shows "fst (list_logins p s)
           = Inr (sort (map (drop (length p))
                   (filter (\<lambda>k. take (length p) k = p) (map fst (parameters s)))))
     \<and> (\<exists>names. fst (list_logins p s) = Inr names \<and> sorted names
           \<and> (\<forall>n. n \<in> set names \<longleftrightarrow> p @ n \<in> fst ` set (parameters s))
           \<and> (distinct (map fst (parameters s)) \<longrightarrow> distinct names))
     \<and> (held_names p s = {} \<longrightarrow> fst (list_logins p s) = Inr [])
     \<and> parameters (snd (list_logins p s)) = parameters s
     \<and> (\<exists>names. fst (list_logins p (run_all p ops s)) = Inr names \<and> sorted names
           \<and> set names = created_not_deleted ops (held_names p s))
     \<and> (parameters s = [] \<longrightarrow>
          (\<exists>names. fst (list_logins p (run_all p ops s)) = Inr names \<and> sorted names
             \<and> distinct names \<and> set names = created_not_deleted ops {}))"
proof -
  have a: "fst (list_logins p s)
           = Inr (sort (map (drop (length p))
                   (filter (\<lambda>k. take (length p) k = p) (map fst (parameters s)))))"
    by (rule list_logins_healthy(1) [OF assms])
  from list_logins_names [OF assms, of p]
  obtain names where n: "fst (list_logins p s) = Inr names" and so: "sorted names"
    and se: "set names = held_names p s"
    and di: "distinct (map fst (parameters s)) \<longrightarrow> distinct names"
    by blast
  have "\<forall>n. n \<in> set names \<longleftrightarrow> p @ n \<in> fst ` set (parameters s)"
    unfolding se by (simp add: held_names_iff)
  with n so di
  have b: "\<exists>names. fst (list_logins p s) = Inr names \<and> sorted names
           \<and> (\<forall>n. n \<in> set names \<longleftrightarrow> p @ n \<in> fst ` set (parameters s))
           \<and> (distinct (map fst (parameters s)) \<longrightarrow> distinct names)"
    by blast
  have c: "held_names p s = {} \<longrightarrow> fst (list_logins p s) = Inr []"
    using n se by auto
  have d: "parameters (snd (list_logins p s)) = parameters s" by simp
  note r = run_all_healthy [OF assms, of p ops]
  from r have pe: "pending (run_all p ops s) = []" by simp
  from list_logins_names [OF pe, of p]
  obtain names' where n': "fst (list_logins p (run_all p ops s)) = Inr names'"
    and so': "sorted names'" and se': "set names' = held_names p (run_all p ops s)"
    and di': "distinct (map fst (parameters (run_all p ops s))) \<longrightarrow> distinct names'"
    by blast
  from se' r have se'': "set names' = created_not_deleted ops (held_names p s)" by simp
  from n' so' se''
  have e: "\<exists>names. fst (list_logins p (run_all p ops s)) = Inr names \<and> sorted names
           \<and> set names = created_not_deleted ops (held_names p s)"
    by blast
  have f: "parameters s = [] \<longrightarrow>
          (\<exists>names. fst (list_logins p (run_all p ops s)) = Inr names \<and> sorted names
             \<and> distinct names \<and> set names = created_not_deleted ops {})"
  proof
    assume em: "parameters s = []"
    then have "distinct (map fst (parameters s))" by simp
    then have "distinct (map fst (parameters (run_all p ops s)))" by (rule run_all_distinct)
    with di' have "distinct names'" by simp
    moreover from em have "held_names p s = {}" by (simp add: held_names_def)
    ultimately show "\<exists>names. fst (list_logins p (run_all p ops s)) = Inr names \<and> sorted names
             \<and> distinct names \<and> set names = created_not_deleted ops {}"
      using n' so' se'' by auto
  qed
  from a b c d e f show ?thesis by (intro conjI)
qed

theorem list_logins_reflects_names_witness:
  "fst (list_logins ''/passwords/''
     (run_all ''/passwords/''
        [Create ''bob'' (Some ''b''), Create ''dave'' None, Create ''alice'' None,
         Update ''carol'' ''c'', Delete ''bob''] world0))
     = Inr [''alice'', ''carol'', ''dave'']
   \<and> fst (list_logins ''/passwords/'' world0) = Inr []"
proof -
  let ?ops = "[Create ''bob'' (Some ''b''), Create ''dave'' None, Create ''alice'' None,
         Update ''carol'' ''c'', Delete ''bob'']"
  have h: "pending world0 = []" and e: "parameters world0 = []"
    by (simp_all add: world0_def)
  note t = list_logins_reflects_names [OF h, of "''/passwords/''" ?ops]
  from t e obtain names where
    n: "fst (list_logins ''/passwords/'' (run_all ''/passwords/'' ?ops world0)) = Inr names"
    and so: "sorted names" and di: "distinct names"
    and se: "set names = created_not_deleted ?ops {}"
    by blast
  have "created_not_deleted ?ops {} = set [''alice'', ''carol'', ''dave'']"
    by (simp add: insert_commute) 
  with se have "set names = set [''alice'', ''carol'', ''dave'']" by simp
  moreover have "sorted [''alice'', ''carol'', ''dave'']" and "distinct [''alice'', ''carol'', ''dave'']"
    by simp_all
  ultimately have "names = [''alice'', ''carol'', ''dave'']"
    using so di by (metis sorted_distinct_set_unique)
  with n have a: "fst (list_logins ''/passwords/'' (run_all ''/passwords/'' ?ops world0))
     = Inr [''alice'', ''carol'', ''dave'']" by simp
  from t e have "held_names ''/passwords/'' world0 = {} \<longrightarrow>
      fst (list_logins ''/passwords/'' world0) = Inr []" by blast
  then have b: "fst (list_logins ''/passwords/'' world0) = Inr []"
    by (simp add: held_names_def world0_def)
  from a b show ?thesis by (rule conjI)
qed

end
